theory Spec2Isabelle
  imports Complex_Main "HOL-Library.AList" "HOL-Library.Log_Nat"
begin

section \<open>Data model of \<^verbatim>\<open>bidirectional_counter.py\<close>\<close>

text \<open>
  The module keeps, per counter object, a dictionary of tracks and a dictionary of
  per-category direction counters. Python dictionaries iterate in insertion order, an
  assignment to an existing key keeps the key's place and a new key goes last: this is
  what \<open>AList.update\<close> does on an association list, so both dictionaries are
  association lists read with \<open>map_of\<close>.

  Centroids are Python integers (the detector computes \<^verbatim>\<open>(x1 + x2) // 2\<close> on
  integers, the external tracker path converts with \<^verbatim>\<open>map(int, ltrb)\<close>), so
  coordinates are \<open>int\<close>. The relative line position is a Python float, that is an
  IEEE double: it is modelled by the rational number the double denotes, a product of
  floats by the exact product rounded to the nearest double (\<open>doble\<close> below), and
  \<^verbatim>\<open>int(...)\<close> by truncation towards zero.
\<close>

datatype Direccion = IZQUIERDA_A_DERECHA | DERECHA_A_IZQUIERDA | NINGUNA

record TrackInfo =
  track_id :: int
  categoria :: string
  ultima_posicion_x :: int
  posicion_inicial_x :: int
  cruzado :: bool
  direccion_cruce :: "Direccion option"
  frames_vistos :: int
  historial_posiciones :: "(int \<times> int) list"
  ultimo_lado :: string
  puede_cruzar :: bool

text \<open>The inner dictionary \<^verbatim>\<open>{'izq_der': n, 'der_izq': m}\<close> of one category.\<close>

record Contador =
  izq_der :: int
  der_izq :: int

text \<open>
  A detection as the detector delivers it. The dictionary keys the counter reads are
  \<^verbatim>\<open>'centro'\<close>, \<^verbatim>\<open>'categoria'\<close> and (external tracker only)
  \<^verbatim>\<open>'bbox'\<close>; the result of processing pairs the copied detection with its
  \<^verbatim>\<open>'track_id'\<close>.
\<close>

record Deteccion =
  det_bbox :: "int \<times> int \<times> int \<times> int"
  det_categoria :: string
  det_centro :: "int \<times> int"

text \<open>
  A track as the external tracker reports it after \<^verbatim>\<open>update_tracks\<close>: whether it
  is confirmed, its identifier, its box and its class (\<open>None\<close> when the track object has
  no \<^verbatim>\<open>get_det_class\<close>). The external tracker itself is not part of the
  repository; its answer for a frame is a parameter of the model.
\<close>

record TrackExterno =
  ext_confirmado :: bool
  ext_track_id :: int
  ext_ltrb :: "int \<times> int \<times> int \<times> int"
  ext_clase :: "string option"

text \<open>
  The counter object. \<open>callback_cruce\<close> says whether a callback is configured; the
  callback itself belongs to the caller, so its effect is the trace
  \<open>llamadas_callback\<close> of the argument triples it was invoked with, in order.
\<close>

record BidirectionalCounter =
  ancho_frame :: int
  alto_frame :: int
  margen_cruce :: int
  callback_cruce :: bool
  llamadas_callback :: "(string \<times> Direccion \<times> int) list"
  linea_posicion_relativa :: rat
  linea_x :: int
  categorias :: "string list"
  contadores :: "(string \<times> Contador) list"
  tracks :: "(int \<times> TrackInfo) list"
  siguiente_track_id :: int
  usar_deepsort :: bool

section \<open>Construction and line configuration\<close>

text \<open>
  Rounding to the nearest double, ties to even, for magnitudes in the normal range of
  doubles (frame widths and relative positions are far inside it): \<open>exponente q\<close> is
  the integer \<open>e\<close> with \<open>2 ^ e \<le> |q| < 2 ^ (e + 1)\<close>, found from the bit lengths of
  numerator and denominator; the magnitude is scaled to a 53 bit mantissa, which is
  rounded, and scaled back. A decimal literal of the source such as \<^verbatim>\<open>0.1\<close> is
  the double \<open>doble (1 / 10)\<close>.
\<close>

definition dos_a :: "int \<Rightarrow> rat" where
  "dos_a e = (if 0 \<le> e then 2 ^ nat e else 1 / 2 ^ nat (- e))"

definition exponente_aprox :: "rat \<Rightarrow> int" where
  "exponente_aprox q =
     bitlen (fst (quotient_of \<bar>q\<bar>)) - bitlen (snd (quotient_of \<bar>q\<bar>))"

definition exponente :: "rat \<Rightarrow> int" where
  "exponente q =
     (if dos_a (exponente_aprox q) \<le> \<bar>q\<bar> then exponente_aprox q
      else exponente_aprox q - 1)"

definition redondear :: "rat \<Rightarrow> int" where
  "redondear m =
     (if m - of_int \<lfloor>m\<rfloor> < 1 / 2 then \<lfloor>m\<rfloor>
      else if 1 / 2 < m - of_int \<lfloor>m\<rfloor> then \<lfloor>m\<rfloor> + 1
      else if even \<lfloor>m\<rfloor> then \<lfloor>m\<rfloor> else \<lfloor>m\<rfloor> + 1)"

definition doble :: "rat \<Rightarrow> rat" where
  "doble q =
     (if q = 0 then 0
      else sgn q * of_int (redondear (\<bar>q\<bar> / dos_a (exponente q - 52)))
             * dos_a (exponente q - 52))"

text \<open>Python's \<^verbatim>\<open>int(x)\<close> on a float: truncation towards zero.\<close>

definition py_int :: "rat \<Rightarrow> int" where
  "py_int q = (if 0 \<le> q then \<lfloor>q\<rfloor> else \<lceil>q\<rceil>)"

definition categorias_por_defecto :: "string list" where
  "categorias_por_defecto =
     [''adulto'', ''nino'', ''bicicleta'', ''silla_ruedas'', ''movilidad_reducida'']"

definition inicializar_contadores :: "string list \<Rightarrow> (string \<times> Contador) list" where
  "inicializar_contadores cats =
     fold (\<lambda>c m. AList.update c \<lparr>izq_der = 0, der_izq = 0\<rparr> m) cats []"

text \<open>\<^verbatim>\<open>int(ancho * rel)\<close> with an integer width and a float position: the width
  is converted to a float, the product is rounded, the result truncated.\<close>

definition linea_en_pixeles :: "int \<Rightarrow> rat \<Rightarrow> int" where
  "linea_en_pixeles ancho rel = py_int (doble (doble (of_int ancho) * rel))"

text \<open>
  \<^verbatim>\<open>__init__\<close>. \<open>cats\<close> is the optional category list (\<^verbatim>\<open>categorias or [...]\<close>
  takes the default for \<^verbatim>\<open>None\<close> and for the empty list); \<open>deepsort_ok\<close>
  says that the external tracker could be imported and built.
\<close>

definition nuevo_contador ::
  "int \<Rightarrow> int \<Rightarrow> rat \<Rightarrow> int \<Rightarrow> string list option \<Rightarrow> bool \<Rightarrow> bool \<Rightarrow> bool
     \<Rightarrow> BidirectionalCounter" where
  "nuevo_contador ancho alto rel margen cats usar_ds deepsort_ok cb =
     (let cs = (case cats of None \<Rightarrow> categorias_por_defecto
                | Some [] \<Rightarrow> categorias_por_defecto
                | Some l \<Rightarrow> l)
      in \<lparr>ancho_frame = ancho, alto_frame = alto, margen_cruce = margen,
          callback_cruce = cb, llamadas_callback = [],
          linea_posicion_relativa = rel,
          linea_x = linea_en_pixeles ancho rel,
          categorias = cs,
          contadores = inicializar_contadores cs,
          tracks = [], siguiente_track_id = 1,
          usar_deepsort = (usar_ds \<and> deepsort_ok)\<rparr>)"

definition actualizar_posicion_linea :: "BidirectionalCounter \<Rightarrow> rat \<Rightarrow> BidirectionalCounter" where
  "actualizar_posicion_linea s posicion_relativa =
     (let rel = max (doble (1 / 10)) (min (doble (9 / 10)) posicion_relativa)
      in s\<lparr>linea_posicion_relativa := rel,
           linea_x := linea_en_pixeles (ancho_frame s) rel\<rparr>)"

definition actualizar_dimensiones :: "BidirectionalCounter \<Rightarrow> int \<Rightarrow> int \<Rightarrow> BidirectionalCounter" where
  "actualizar_dimensiones s ancho alto =
     s\<lparr>ancho_frame := ancho, alto_frame := alto,
       linea_x := linea_en_pixeles ancho (linea_posicion_relativa s)\<rparr>"

section \<open>Tracks\<close>

text \<open>\<^verbatim>\<open>TrackInfo(track_id=.., categoria=.., ultima_posicion_x=cx, posicion_inicial_x=cx,
  historial_posiciones=[(cx, cy)])\<close>, the other fields at their defaults.\<close>

definition nuevo_track :: "int \<Rightarrow> string \<Rightarrow> int \<Rightarrow> int \<Rightarrow> TrackInfo" where
  "nuevo_track tid cat cx cy =
     \<lparr>track_id = tid, categoria = cat, ultima_posicion_x = cx, posicion_inicial_x = cx,
      cruzado = False, direccion_cruce = None, frames_vistos = 1,
      historial_posiciones = [(cx, cy)], ultimo_lado = ''ninguno'', puede_cruzar = True\<rparr>"

text \<open>Attribute assignments on the track object stored under a key: the entry is
  replaced in place.\<close>

definition modificar_track ::
  "BidirectionalCounter \<Rightarrow> int \<Rightarrow> (TrackInfo \<Rightarrow> TrackInfo) \<Rightarrow> BidirectionalCounter" where
  "modificar_track s tid f =
     (case map_of (tracks s) tid of
        None \<Rightarrow> s
      | Some t \<Rightarrow> s\<lparr>tracks := AList.update tid (f t) (tracks s)\<rparr>)"

text \<open>\<^verbatim>\<open>h[-50:]\<close> after the append when the history is longer than 50.\<close>

definition actualizar_track ::
  "BidirectionalCounter \<Rightarrow> int \<Rightarrow> string \<Rightarrow> int \<Rightarrow> int \<Rightarrow> BidirectionalCounter" where
  "actualizar_track s tid cat cx cy =
     (case map_of (tracks s) tid of
        None \<Rightarrow> s\<lparr>tracks := AList.update tid (nuevo_track tid cat cx cy) (tracks s)\<rparr>
      | Some t \<Rightarrow>
          (let h = historial_posiciones t @ [(cx, cy)];
               h' = (if length h > 50 then drop (length h - 50) h else h)
           in s\<lparr>tracks := AList.update tid
                 (t\<lparr>ultima_posicion_x := cx,
                    frames_vistos := frames_vistos t + 1,
                    historial_posiciones := h'\<rparr>) (tracks s)\<rparr>))"

section \<open>Crossing registration and crossing check\<close>

definition registrar_cruce ::
  "BidirectionalCounter \<Rightarrow> int \<Rightarrow> Direccion \<Rightarrow> BidirectionalCounter" where
  "registrar_cruce s tid direccion =
     (case map_of (tracks s) tid of
        None \<Rightarrow> s
      | Some t \<Rightarrow>
          (let s1 = s\<lparr>tracks := AList.update tid
                        (t\<lparr>cruzado := True, direccion_cruce := Some direccion\<rparr>) (tracks s)\<rparr>;
               cat = categoria t
           in case map_of (contadores s1) cat of
                None \<Rightarrow> s1
              | Some c \<Rightarrow>
                  (let c' = (if direccion = IZQUIERDA_A_DERECHA
                             then c\<lparr>izq_der := izq_der c + 1\<rparr>
                             else c\<lparr>der_izq := der_izq c + 1\<rparr>);
                       s2 = s1\<lparr>contadores := AList.update cat c' (contadores s1)\<rparr>
                   in if callback_cruce s2
                      then s2\<lparr>llamadas_callback :=
                                llamadas_callback s2 @ [(cat, direccion, tid)]\<rparr>
                      else s2)))"

definition verificar_cruce :: "BidirectionalCounter \<Rightarrow> int \<Rightarrow> BidirectionalCounter" where
  "verificar_cruce s tid =
     (case map_of (tracks s) tid of
        None \<Rightarrow> s
      | Some t \<Rightarrow>
          (let h = historial_posiciones t in
           if length h < 2 then s
           else
             (let pos_anterior_x = fst (h ! (length h - 2));
                  pos_actual_x = fst (h ! (length h - 1));
                  linea = linea_x s
              in if pos_anterior_x < linea \<and> pos_actual_x \<ge> linea then
                   (if puede_cruzar t
                    then modificar_track (registrar_cruce s tid IZQUIERDA_A_DERECHA) tid
                           (\<lambda>t. t\<lparr>puede_cruzar := False, ultimo_lado := ''derecha''\<rparr>)
                    else s)
                 else if pos_anterior_x > linea \<and> pos_actual_x \<le> linea then
                   (if puede_cruzar t
                    then modificar_track (registrar_cruce s tid DERECHA_A_IZQUIERDA) tid
                           (\<lambda>t. t\<lparr>puede_cruzar := False, ultimo_lado := ''izquierda''\<rparr>)
                    else s)
                 else
                   (if \<bar>pos_actual_x - linea\<bar> > margen_cruce s
                    then modificar_track s tid (\<lambda>t. t\<lparr>puede_cruzar := True\<rparr>)
                    else s))))"

section \<open>The built-in matcher\<close>

text \<open>
  The source compares \<^verbatim>\<open>np.sqrt(dx**2 + dy**2)\<close> with the running minimum and with
  the threshold 100. On integer centroids both comparisons are decided by the squared
  distances (lemmas \<open>distancia_umbral\<close> and \<open>distancia_orden\<close> below), which is what the
  model computes; \<open>None\<close> is the initial \<^verbatim>\<open>float('inf')\<close>.
\<close>

definition distancia2 :: "int \<Rightarrow> int \<Rightarrow> int \<Rightarrow> int \<Rightarrow> int" where
  "distancia2 cx cy ux uy = (cx - ux)\<^sup>2 + (cy - uy)\<^sup>2"

definition umbral_distancia :: int where
  "umbral_distancia = 100"

fun buscar_track ::
  "int \<Rightarrow> int \<Rightarrow> string \<Rightarrow> int set \<Rightarrow> (int \<times> TrackInfo) list \<Rightarrow> int option \<Rightarrow> int option
     \<Rightarrow> int option" where
  "buscar_track cx cy cat usados [] distancia_minima track_encontrado = track_encontrado"
| "buscar_track cx cy cat usados ((tid, info) # resto) distancia_minima track_encontrado =
     (if tid \<in> usados then
        buscar_track cx cy cat usados resto distancia_minima track_encontrado
      else if categoria info \<noteq> cat then
        buscar_track cx cy cat usados resto distancia_minima track_encontrado
      else if historial_posiciones info = [] then
        buscar_track cx cy cat usados resto distancia_minima track_encontrado
      else
        (let d = distancia2 cx cy (fst (last (historial_posiciones info)))
                   (snd (last (historial_posiciones info)))
         in if (case distancia_minima of None \<Rightarrow> True | Some m \<Rightarrow> d < m)
               \<and> d < umbral_distancia\<^sup>2
            then buscar_track cx cy cat usados resto (Some d) (Some tid)
            else buscar_track cx cy cat usados resto distancia_minima track_encontrado))"

definition encontrar_track_cercano ::
  "BidirectionalCounter \<Rightarrow> int \<Rightarrow> int \<Rightarrow> string \<Rightarrow> int set \<Rightarrow> int option" where
  "encontrar_track_cercano s cx cy cat tracks_usados =
     buscar_track cx cy cat tracks_usados (tracks s) None None"

definition limpiar_tracks_antiguos :: "BidirectionalCounter \<Rightarrow> int set \<Rightarrow> BidirectionalCounter" where
  "limpiar_tracks_antiguos s tracks_activos =
     (let tracks_a_eliminar =
            map fst (filter (\<lambda>(tid, info). tid \<notin> tracks_activos \<and> cruzado info) (tracks s))
      in s\<lparr>tracks := fold AList.delete tracks_a_eliminar (tracks s)\<rparr>)"

text \<open>The creation branch of the loop (\<^verbatim>\<open>track_id = self.siguiente_track_id;
  self.siguiente_track_id += 1; self.tracks[track_id] = TrackInfo(...)\<close>).\<close>

definition crear_track :: "BidirectionalCounter \<Rightarrow> string \<Rightarrow> int \<Rightarrow> int \<Rightarrow> BidirectionalCounter" where
  "crear_track s cat cx cy =
     (let tid = siguiente_track_id s
      in s\<lparr>siguiente_track_id := tid + 1,
           tracks := AList.update tid (nuevo_track tid cat cx cy) (tracks s)\<rparr>)"

text \<open>One iteration of the loop over the frame's detections: the state, the set
  \<^verbatim>\<open>tracks_usados\<close> and the output list so far.\<close>

definition paso_deteccion ::
  "Deteccion \<Rightarrow> BidirectionalCounter \<times> int set \<times> (Deteccion \<times> int) list
     \<Rightarrow> BidirectionalCounter \<times> int set \<times> (Deteccion \<times> int) list" where
  "paso_deteccion det acc =
     (case acc of (s, tracks_usados, detecciones_con_id) \<Rightarrow>
        (let cx = fst (det_centro det); cy = snd (det_centro det);
             cat = det_categoria det
         in case encontrar_track_cercano s cx cy cat tracks_usados of
              None \<Rightarrow>
                (let tid = siguiente_track_id s;
                     s1 = crear_track s cat cx cy
                 in (verificar_cruce s1 tid, insert tid tracks_usados,
                     detecciones_con_id @ [(det, tid)]))
            | Some tid \<Rightarrow>
                (let s1 = actualizar_track s tid cat cx cy
                 in (verificar_cruce s1 tid, insert tid tracks_usados,
                     detecciones_con_id @ [(det, tid)]))))"

definition procesar_con_tracker_simple ::
  "BidirectionalCounter \<Rightarrow> Deteccion list \<Rightarrow> (Deteccion \<times> int) list \<times> BidirectionalCounter" where
  "procesar_con_tracker_simple s detecciones =
     (case fold paso_deteccion detecciones (s, {}, []) of
        (s', tracks_usados, detecciones_con_id) \<Rightarrow>
          (detecciones_con_id, limpiar_tracks_antiguos s' tracks_usados))"

section \<open>The external tracker path and the entry point\<close>

definition paso_deepsort ::
  "TrackExterno \<Rightarrow> BidirectionalCounter \<times> (Deteccion \<times> int) list
     \<Rightarrow> BidirectionalCounter \<times> (Deteccion \<times> int) list" where
  "paso_deepsort tr acc =
     (case acc of (s, detecciones_con_id) \<Rightarrow>
        if \<not> ext_confirmado tr then (s, detecciones_con_id)
        else
          (case ext_ltrb tr of (x1, y1, x2, y2) \<Rightarrow>
             (let tid = ext_track_id tr;
                  cx = (x1 + x2) div 2; cy = (y1 + y2) div 2;
                  cat = (case ext_clase tr of None \<Rightarrow> ''adulto'' | Some c \<Rightarrow> c);
                  s1 = verificar_cruce (actualizar_track s tid cat cx cy) tid
              in (s1, detecciones_con_id @
                    [(\<lparr>det_bbox = (x1, y1, x2, y2), det_categoria = cat,
                       det_centro = (cx, cy)\<rparr>, tid)]))))"

definition procesar_con_deepsort ::
  "BidirectionalCounter \<Rightarrow> TrackExterno list \<Rightarrow> (Deteccion \<times> int) list \<times> BidirectionalCounter" where
  "procesar_con_deepsort s tracks_ext =
     (case fold paso_deepsort tracks_ext (s, []) of
        (s', detecciones_con_id) \<Rightarrow> (detecciones_con_id, s'))"

text \<open>
  \<^verbatim>\<open>procesar_detecciones(detecciones, frame)\<close>: \<open>hay_frame\<close> is
  \<^verbatim>\<open>frame is not None\<close>, \<open>tracks_ext\<close> what the external tracker answers for
  this frame when it is asked.
\<close>

definition procesar_detecciones ::
  "BidirectionalCounter \<Rightarrow> Deteccion list \<Rightarrow> bool \<Rightarrow> TrackExterno list
     \<Rightarrow> (Deteccion \<times> int) list \<times> BidirectionalCounter" where
  "procesar_detecciones s detecciones hay_frame tracks_ext =
     (if detecciones = [] then ([], s)
      else if usar_deepsort s \<and> hay_frame then procesar_con_deepsort s tracks_ext
      else procesar_con_tracker_simple s detecciones)"

section \<open>Reading and resetting the counters\<close>

record Totales =
  total_izq_der :: int
  total_der_izq :: int
  total :: int

definition obtener_total_cruces :: "BidirectionalCounter \<Rightarrow> Totales" where
  "obtener_total_cruces s =
     (let t1 = sum_list (map (\<lambda>(k, c). izq_der c) (contadores s));
          t2 = sum_list (map (\<lambda>(k, c). der_izq c) (contadores s))
      in \<lparr>total_izq_der = t1, total_der_izq = t2, total = t1 + t2\<rparr>)"

definition obtener_contador_categoria :: "BidirectionalCounter \<Rightarrow> string \<Rightarrow> Contador" where
  "obtener_contador_categoria s cat =
     (case map_of (contadores s) cat of
        None \<Rightarrow> \<lparr>izq_der = 0, der_izq = 0\<rparr>
      | Some c \<Rightarrow> c)"

definition reiniciar_contadores :: "BidirectionalCounter \<Rightarrow> BidirectionalCounter" where
  "reiniciar_contadores s =
     s\<lparr>contadores := inicializar_contadores (categorias s),
       tracks := [],
       siguiente_track_id := 1\<rparr>"

text \<open>The counter cell of a category and a direction, as the source indexes it
  (\<^verbatim>\<open>contadores[categoria]['izq_der']\<close>, \<^verbatim>\<open>contadores[categoria]['der_izq']\<close>);
  \<open>None\<close> when the category has no entry, and for \<open>NINGUNA\<close>, which has no cell.\<close>

definition celda :: "BidirectionalCounter \<Rightarrow> string \<Rightarrow> Direccion \<Rightarrow> int option" where
  "celda s cat d =
     (case map_of (contadores s) cat of
        None \<Rightarrow> None
      | Some c \<Rightarrow>
          (case d of
             IZQUIERDA_A_DERECHA \<Rightarrow> Some (izq_der c)
           | DERECHA_A_IZQUIERDA \<Rightarrow> Some (der_izq c)
           | NINGUNA \<Rightarrow> None))"

section \<open>Concrete counters used to evaluate the model\<close>

text \<open>A counter on a 300 pixel wide frame with the line in the middle (\<open>linea_x = 150\<close>),
  margin 30, the default categories, a callback and the built-in matcher.\<close>

definition contador_ejemplo :: BidirectionalCounter where
  "contador_ejemplo = nuevo_contador 300 480 (1 / 2) 30 None False False True"

text \<open>Track 1 of category \<^verbatim>\<open>adulto\<close> seen at x = 100 and then at x = 200, and the
  other way round, before the crossing check of the second sample.\<close>

definition pista_izq_der :: BidirectionalCounter where
  "pista_izq_der =
     actualizar_track (actualizar_track contador_ejemplo 1 ''adulto'' 100 240) 1 ''adulto'' 200 240"


text \<open>A counter configured for adults only, and on it a track of category
  \<^verbatim>\<open>bicicleta\<close> seen at x = 100 and then at x = 200.\<close>

definition contador_solo_adultos :: BidirectionalCounter where
  "contador_solo_adultos = nuevo_contador 300 480 (1 / 2) 30 (Some [''adulto'']) False False True"

definition pista_bicicleta :: BidirectionalCounter where
  "pista_bicicleta =
     actualizar_track (actualizar_track contador_solo_adultos 1 ''bicicleta'' 100 240)
       1 ''bicicleta'' 200 240"

text \<open>The same frame geometry with the external tracker in use. The external tracker
  reports its track 1 first as \<^verbatim>\<open>adulto\<close> around x = 100, then as
  \<^verbatim>\<open>bicicleta\<close> around x = 200.\<close>

definition contador_deepsort :: BidirectionalCounter where
  "contador_deepsort = nuevo_contador 300 480 (1 / 2) 30 None True True True"

definition det_adulto_100 :: Deteccion where
  "det_adulto_100 =
     \<lparr>det_bbox = (80, 200, 120, 280), det_categoria = ''adulto'', det_centro = (100, 240)\<rparr>"

definition det_bicicleta_200 :: Deteccion where
  "det_bicicleta_200 =
     \<lparr>det_bbox = (180, 200, 220, 280), det_categoria = ''bicicleta'', det_centro = (200, 240)\<rparr>"

definition ext_adulto_100 :: TrackExterno where
  "ext_adulto_100 =
     \<lparr>ext_confirmado = True, ext_track_id = 1, ext_ltrb = (80, 200, 120, 280),
      ext_clase = Some ''adulto''\<rparr>"

definition ext_bicicleta_200 :: TrackExterno where
  "ext_bicicleta_200 =
     \<lparr>ext_confirmado = True, ext_track_id = 1, ext_ltrb = (180, 200, 220, 280),
      ext_clase = Some ''bicicleta''\<rparr>"

definition dos_frames_deepsort :: BidirectionalCounter where
  "dos_frames_deepsort =
     snd (procesar_detecciones
            (snd (procesar_detecciones contador_deepsort [det_adulto_100] True [ext_adulto_100]))
            [det_bicicleta_200] True [ext_bicicleta_200])"

section \<open>One track followed over its samples\<close>

text \<open>
  What both frame loops do for one track and one sample \<open>p = (cx, cy)\<close>: update the
  track (creating it when its identifier is new), then check the crossing
  (\<^verbatim>\<open>self._actualizar_track(track_id, categoria, cx, cy);
  self._verificar_cruce(track_id)\<close>). \<open>seguir_track\<close> does this for the samples of one
  track in order.
\<close>

definition paso_track ::
  "BidirectionalCounter \<Rightarrow> int \<Rightarrow> string \<Rightarrow> int \<times> int \<Rightarrow> BidirectionalCounter" where
  "paso_track s tid cat p = verificar_cruce (actualizar_track s tid cat (fst p) (snd p)) tid"

definition seguir_track ::
  "BidirectionalCounter \<Rightarrow> int \<Rightarrow> string \<Rightarrow> (int \<times> int) list \<Rightarrow> BidirectionalCounter" where
  "seguir_track s tid cat muestras = fold (\<lambda>p s'. paso_track s' tid cat p) muestras s"

text \<open>The counter update inside \<^verbatim>\<open>_registrar_cruce\<close>, on the counter dictionary
  alone.\<close>

definition incrementar ::
  "(string \<times> Contador) list \<Rightarrow> string \<Rightarrow> Direccion \<Rightarrow> (string \<times> Contador) list" where
  "incrementar cs cat d =
     (case map_of cs cat of
        None \<Rightarrow> cs
      | Some c \<Rightarrow>
          AList.update cat
            (if d = IZQUIERDA_A_DERECHA then c\<lparr>izq_der := izq_der c + 1\<rparr>
             else c\<lparr>der_izq := der_izq c + 1\<rparr>) cs)"

text \<open>A left-to-right pass sampled densely around the line at x = 150.\<close>

definition muestras_pasada :: "(int \<times> int) list" where
  "muestras_pasada =
     [(100, 240), (140, 240), (149, 240), (150, 240), (151, 240), (200, 240)]"

section \<open>The operations that change the state\<close>

text \<open>
  The two geometric tests of \<^verbatim>\<open>_verificar_cruce\<close> on the last two history
  entries of a track.
\<close>

definition cruza_izq_der :: "TrackInfo \<Rightarrow> int \<Rightarrow> bool" where
  "cruza_izq_der t linea =
     (let h = historial_posiciones t
      in fst (h ! (length h - 2)) < linea \<and> fst (h ! (length h - 1)) \<ge> linea)"

definition cruza_der_izq :: "TrackInfo \<Rightarrow> int \<Rightarrow> bool" where
  "cruza_der_izq t linea =
     (let h = historial_posiciones t
      in fst (h ! (length h - 2)) > linea \<and> fst (h ! (length h - 1)) \<le> linea)"

definition distancia_a_linea :: "TrackInfo \<Rightarrow> int \<Rightarrow> int" where
  "distancia_a_linea t linea =
     (let h = historial_posiciones t in \<bar>fst (h ! (length h - 1)) - linea\<bar>)"

text \<open>
  Every method of the class that writes to the object, as one operation each; the
  creation branch of the built-in matcher is an operation of its own. The two frame
  loops are sequences of these operations (lemmas \<open>tracker_simple_secuencia\<close> and
  \<open>deepsort_secuencia\<close> below).
\<close>

datatype Operacion =
    CrearTrack string int int
  | ActualizarTrack int string int int
  | VerificarCruce int
  | RegistrarCruce int Direccion
  | LimpiarTracksAntiguos "int set"
  | ActualizarPosicionLinea rat
  | ActualizarDimensiones int int
  | ReiniciarContadores

fun ejecutar :: "Operacion \<Rightarrow> BidirectionalCounter \<Rightarrow> BidirectionalCounter" where
  "ejecutar (CrearTrack cat cx cy) s = crear_track s cat cx cy"
| "ejecutar (ActualizarTrack tid cat cx cy) s = actualizar_track s tid cat cx cy"
| "ejecutar (VerificarCruce tid) s = verificar_cruce s tid"
| "ejecutar (RegistrarCruce tid d) s = registrar_cruce s tid d"
| "ejecutar (LimpiarTracksAntiguos activos) s = limpiar_tracks_antiguos s activos"
| "ejecutar (ActualizarPosicionLinea p) s = actualizar_posicion_linea s p"
| "ejecutar (ActualizarDimensiones ancho alto) s = actualizar_dimensiones s ancho alto"
| "ejecutar ReiniciarContadores s = reiniciar_contadores s"

text \<open>The operation creates the track object stored under \<open>k\<close>: the creation branch of
  the matcher for the next identifier, or an update for an identifier not yet known.\<close>

fun crea :: "Operacion \<Rightarrow> BidirectionalCounter \<Rightarrow> int \<Rightarrow> bool" where
  "crea (CrearTrack cat cx cy) s k = (k = siguiente_track_id s)"
| "crea (ActualizarTrack tid cat cx cy) s k = (k = tid \<and> map_of (tracks s) tid = None)"
| "crea _ s k = False"

text \<open>The track of \<open>pista_izq_der\<close> after its crossing check (counted, disarmed), and
  after a further sample at x = 210, which is 60 pixels from the line.\<close>

definition pista_cruzada :: BidirectionalCounter where
  "pista_cruzada = verificar_cruce pista_izq_der 1"

definition pista_alejada :: BidirectionalCounter where
  "pista_alejada = actualizar_track pista_cruzada 1 ''adulto'' 210 240"

section \<open>Distances and invariants of the track dictionary\<close>

text \<open>The squared distance from a detection centre to the last recorded centroid of a
  track, and the Euclidean distance the source computes from it with
  \<^verbatim>\<open>np.sqrt\<close>.\<close>

definition distancia2_ultima :: "int \<Rightarrow> int \<Rightarrow> TrackInfo \<Rightarrow> int" where
  "distancia2_ultima cx cy info =
     distancia2 cx cy (fst (last (historial_posiciones info)))
       (snd (last (historial_posiciones info)))"

definition distancia :: "int \<Rightarrow> int \<Rightarrow> TrackInfo \<Rightarrow> real" where
  "distancia cx cy info = sqrt (of_int (distancia2_ultima cx cy info))"

text \<open>
  What the code maintains about its track dictionary: keys are unique (it is a
  dictionary) and every track has at least one history entry (a track is created with
  one and entries are only appended or cut to the last 50).
\<close>

definition tracks_bien_formados :: "BidirectionalCounter \<Rightarrow> bool" where
  "tracks_bien_formados s =
     (distinct (map fst (tracks s)) \<and>
      (\<forall>p \<in> set (tracks s). historial_posiciones (snd p) \<noteq> []))"

text \<open>With the built-in matcher every identifier in use is below the next identifier.\<close>

definition ids_frescos :: "BidirectionalCounter \<Rightarrow> bool" where
  "ids_frescos s = (\<forall>p \<in> set (tracks s). fst p < siguiente_track_id s)"

text \<open>
  The states a counter with the built-in matcher reaches through its public methods:
  construction without the external tracker, frames, line and frame configuration, reset.
\<close>

inductive alcanzable :: "BidirectionalCounter \<Rightarrow> bool" where
  inicial: "alcanzable (nuevo_contador ancho alto rel margen cats False ok cb)"
| frame: "alcanzable s \<Longrightarrow>
          alcanzable (snd (procesar_detecciones s detecciones hay_frame tracks_ext))"
| linea: "alcanzable s \<Longrightarrow> alcanzable (actualizar_posicion_linea s p)"
| dimensiones: "alcanzable s \<Longrightarrow> alcanzable (actualizar_dimensiones s ancho alto)"
| reinicio: "alcanzable s \<Longrightarrow> alcanzable (reiniciar_contadores s)"

text \<open>
  The test of the search loop against the running minimum (\<open>None\<close> is the initial
  \<^verbatim>\<open>float('inf')\<close>), and the tracks the loop does not skip and that lie below
  the threshold.
\<close>

definition pasa :: "int option \<Rightarrow> int \<Rightarrow> bool" where
  "pasa dmin d = (case dmin of None \<Rightarrow> True | Some m \<Rightarrow> d < m)"

definition cand :: "int \<Rightarrow> int \<Rightarrow> string \<Rightarrow> int set \<Rightarrow> int \<times> TrackInfo \<Rightarrow> bool" where
  "cand cx cy cat usados p =
     (fst p \<notin> usados \<and> categoria (snd p) = cat \<and> historial_posiciones (snd p) \<noteq> [] \<and>
      distancia2_ultima cx cy (snd p) < umbral_distancia\<^sup>2)"

text \<open>
  Detections and a frame for the built-in matcher: two adults at x = 100 and x = 130
  and a bicycle at x = 120 make tracks 1, 2 and 3 on the example counter.
\<close>

definition det_en :: "string \<Rightarrow> int \<Rightarrow> int \<Rightarrow> Deteccion" where
  "det_en cat cx cy =
     \<lparr>det_bbox = (cx - 20, cy - 40, cx + 20, cy + 40), det_categoria = cat,
      det_centro = (cx, cy)\<rparr>"

definition tres_pistas :: BidirectionalCounter where
  "tres_pistas =
     snd (procesar_detecciones contador_ejemplo
            [det_en ''adulto'' 100 240, det_en ''adulto'' 130 240, det_en ''bicicleta'' 120 240]
            False [])"

text \<open>
  A second frame in which only the adult at x = 130 is seen again, now at x = 160 (its
  track 2 crosses the line at 150), and a third frame in which only the bicycle is seen.
\<close>

definition tras_cruce :: BidirectionalCounter where
  "tras_cruce =
     snd (procesar_detecciones tres_pistas [det_en ''adulto'' 160 240] False [])"

definition tras_desalojo :: BidirectionalCounter where
  "tras_desalojo =
     snd (procesar_detecciones tras_cruce [det_en ''bicicleta'' 125 240] False [])"

text \<open>
  A pass seen by the built-in matcher: one frame per sample, each with the single
  detection of the object. \<open>pasos_cortos\<close> says that consecutive centroids are less
  than the matching threshold apart.
\<close>

definition frames_de_una_deteccion ::
  "BidirectionalCounter \<Rightarrow> Deteccion list \<Rightarrow> BidirectionalCounter" where
  "frames_de_una_deteccion s dets =
     fold (\<lambda>d s'. snd (procesar_detecciones s' [d] False [])) dets s"

fun pasos_cortos :: "(int \<times> int) list \<Rightarrow> bool" where
  "pasos_cortos (p # q # ps) =
     (distancia2 (fst q) (snd q) (fst p) (snd p) < umbral_distancia\<^sup>2 \<and> pasos_cortos (q # ps))"
| "pasos_cortos _ = True"

section \<open>Basic facts about the state operations\<close>

lemma tracks_modificar_track:
  "map_of (tracks (modificar_track s tid f)) =
     (case map_of (tracks s) tid of None \<Rightarrow> map_of (tracks s)
      | Some t \<Rightarrow> (map_of (tracks s))(tid \<mapsto> f t))"
  by (auto simp: modificar_track_def update_conv' split: option.splits)

lemma campos_modificar_track [simp]:
  "contadores (modificar_track s tid f) = contadores s"
  "llamadas_callback (modificar_track s tid f) = llamadas_callback s"
  "linea_x (modificar_track s tid f) = linea_x s"
  "margen_cruce (modificar_track s tid f) = margen_cruce s"
  "siguiente_track_id (modificar_track s tid f) = siguiente_track_id s"
  "callback_cruce (modificar_track s tid f) = callback_cruce s"
  "categorias (modificar_track s tid f) = categorias s"
  by (simp_all add: modificar_track_def split: option.splits)

lemma campos_registrar_cruce [simp]:
  "linea_x (registrar_cruce s tid d) = linea_x s"
  "margen_cruce (registrar_cruce s tid d) = margen_cruce s"
  "siguiente_track_id (registrar_cruce s tid d) = siguiente_track_id s"
  "callback_cruce (registrar_cruce s tid d) = callback_cruce s"
  "categorias (registrar_cruce s tid d) = categorias s"
  by (simp_all add: registrar_cruce_def Let_def split: option.splits)

lemma tracks_registrar_cruce:
  "map_of (tracks (registrar_cruce s tid d)) =
     (case map_of (tracks s) tid of None \<Rightarrow> map_of (tracks s)
      | Some t \<Rightarrow> (map_of (tracks s))(tid \<mapsto> t\<lparr>cruzado := True, direccion_cruce := Some d\<rparr>))"
  by (auto simp: registrar_cruce_def Let_def update_conv' split: option.splits)

lemma celda_registrar_cruce:
  assumes "map_of (tracks s) tid = Some t"
  shows "celda (registrar_cruce s tid d) c d' =
     (if c = categoria t \<and> d' \<noteq> NINGUNA
         \<and> (d' = IZQUIERDA_A_DERECHA \<longleftrightarrow> d = IZQUIERDA_A_DERECHA)
      then map_option (\<lambda>n. n + 1) (celda s c d') else celda s c d')"
  using assms
  by (auto simp: registrar_cruce_def celda_def Let_def update_conv'
           split: option.splits Direccion.splits)

section \<open>Evaluation of the concrete counters\<close>

text \<open>The line of the example counters: \<^verbatim>\<open>int(300 * 0.5)\<close>.\<close>

lemma linea_300 [simp]: "linea_en_pixeles 300 (1 / 2) = 150"
  unfolding linea_en_pixeles_def by code_simp

lemmas evaluar =
  contador_ejemplo_def nuevo_contador_def actualizar_track_def nuevo_track_def Let_def
  inicializar_contadores_def categorias_por_defecto_def celda_def
  registrar_cruce_def modificar_track_def verificar_cruce_def

lemma linea_contador_ejemplo: "linea_x contador_ejemplo = 150"
  by (simp add: evaluar)

lemma pista_izq_der_valor:
  "pista_izq_der = contador_ejemplo\<lparr>tracks :=
     [(1, \<lparr>track_id = 1, categoria = ''adulto'', ultima_posicion_x = 200,
        posicion_inicial_x = 100, cruzado = False, direccion_cruce = None,
        frames_vistos = 2, historial_posiciones = [(100, 240), (200, 240)],
        ultimo_lado = ''ninguno'', puede_cruzar = True\<rparr>)]\<rparr>"
  by (simp add: pista_izq_der_def evaluar)


section \<open>C1: one crossing-check step\<close>



lemmas evaluar2 =
  contador_solo_adultos_def pista_bicicleta_def contador_deepsort_def
  det_adulto_100_def det_bicicleta_200_def ext_adulto_100_def ext_bicicleta_200_def
  dos_frames_deepsort_def procesar_detecciones_def procesar_con_deepsort_def
  paso_deepsort_def

lemma pista_bicicleta_valor:
  "pista_bicicleta = contador_solo_adultos\<lparr>tracks :=
     [(1, \<lparr>track_id = 1, categoria = ''bicicleta'', ultima_posicion_x = 200,
        posicion_inicial_x = 100, cruzado = False, direccion_cruce = None,
        frames_vistos = 2, historial_posiciones = [(100, 240), (200, 240)],
        ultimo_lado = ''ninguno'', puede_cruzar = True\<rparr>)]\<rparr>"
  by (simp add: evaluar evaluar2)

section \<open>C3: registering a crossing\<close>

text \<open>
  Claim C3 as stated (one counter cell incremented and the callback invoked, whatever
  the track's category) fails for a track whose category has no counter entry: on the
  counter configured for \<^verbatim>\<open>adulto\<close> only, registering a crossing of the
  \<^verbatim>\<open>bicicleta\<close> track leaves every counter as it was and does not invoke the
  configured callback (the guard \<^verbatim>\<open>if categoria in self.contadores\<close>).
\<close>

theorem registrar_cruce_categoria_ajena:
  "map_of (tracks pista_bicicleta) 1 \<noteq> None \<and>
   callback_cruce pista_bicicleta \<and>
   celda (registrar_cruce pista_bicicleta 1 IZQUIERDA_A_DERECHA)
     ''bicicleta'' IZQUIERDA_A_DERECHA = None \<and>
   contadores (registrar_cruce pista_bicicleta 1 IZQUIERDA_A_DERECHA) =
     contadores pista_bicicleta \<and>
   llamadas_callback (registrar_cruce pista_bicicleta 1 IZQUIERDA_A_DERECHA) = []"
  by (simp add: pista_bicicleta_valor evaluar evaluar2)

text \<open>
  Claim C3, amended. For every existing track \<open>t\<close> under \<open>tid\<close> and either crossing
  direction \<open>d\<close>, \<^verbatim>\<open>_registrar_cruce\<close> sets the track's \<open>cruzado\<close> flag. When the
  track's category has a counter entry, the cell of (that category, \<open>d\<close>) goes from
  \<open>n\<close> to \<open>n + 1\<close>, every other cell is unchanged, and the callback, when one is
  configured, is invoked once more, with (category, \<open>d\<close>, \<open>tid\<close>). When the category has
  no counter entry, no counter changes and the callback is not invoked.
\<close>

theorem registrar_cruce_efecto:
  assumes "map_of (tracks s) tid = Some t" and "d \<noteq> NINGUNA"
  shows
   "(\<exists>t'. map_of (tracks (registrar_cruce s tid d)) tid = Some t' \<and> cruzado t') \<and>
    (case celda s (categoria t) d of
       Some n \<Rightarrow>
         celda (registrar_cruce s tid d) (categoria t) d = Some (n + 1) \<and>
         (\<forall>c d'. (c, d') \<noteq> (categoria t, d) \<longrightarrow>
                  celda (registrar_cruce s tid d) c d' = celda s c d') \<and>
         llamadas_callback (registrar_cruce s tid d) =
           (if callback_cruce s then llamadas_callback s @ [(categoria t, d, tid)]
            else llamadas_callback s)
     | None \<Rightarrow>
         contadores (registrar_cruce s tid d) = contadores s \<and>
         llamadas_callback (registrar_cruce s tid d) = llamadas_callback s)"
proof -
  have 1: "\<exists>t'. map_of (tracks (registrar_cruce s tid d)) tid = Some t' \<and> cruzado t'"
    using assms(1) by (simp add: tracks_registrar_cruce)
  have 2: "celda (registrar_cruce s tid d) c d' = celda s c d'"
    if "(c, d') \<noteq> (categoria t, d)" for c d'
    using that assms
    by (cases d; cases d') (auto simp: celda_registrar_cruce [OF assms(1)])
  have 3: "celda (registrar_cruce s tid d) (categoria t) d = Some (n + 1)"
    if "celda s (categoria t) d = Some n" for n
    using that assms by (cases d) (auto simp: celda_registrar_cruce [OF assms(1)])
  have 4: "llamadas_callback (registrar_cruce s tid d) =
           (if callback_cruce s then llamadas_callback s @ [(categoria t, d, tid)]
            else llamadas_callback s)"
    if "celda s (categoria t) d = Some n" for n
    using that assms
    by (auto simp: registrar_cruce_def celda_def Let_def split: option.splits)
  have 5: "contadores (registrar_cruce s tid d) = contadores s \<and>
           llamadas_callback (registrar_cruce s tid d) = llamadas_callback s"
    if "celda s (categoria t) d = None"
    using that assms
    by (cases d) (auto simp: registrar_cruce_def celda_def Let_def split: option.splits)
  show ?thesis using 1 2 3 4 5 by (auto split: option.splits)
qed

theorem registrar_cruce_efecto_witness:
  "celda pista_izq_der ''adulto'' IZQUIERDA_A_DERECHA = Some 0 \<and>
   celda (registrar_cruce pista_izq_der 1 IZQUIERDA_A_DERECHA)
     ''adulto'' IZQUIERDA_A_DERECHA = Some 1 \<and>
   celda (registrar_cruce pista_izq_der 1 IZQUIERDA_A_DERECHA)
     ''adulto'' DERECHA_A_IZQUIERDA = celda pista_izq_der ''adulto'' DERECHA_A_IZQUIERDA \<and>
   llamadas_callback (registrar_cruce pista_izq_der 1 IZQUIERDA_A_DERECHA) =
     [(''adulto'', IZQUIERDA_A_DERECHA, 1)] \<and>
   celda pista_bicicleta ''bicicleta'' IZQUIERDA_A_DERECHA = None \<and>
   contadores (registrar_cruce pista_bicicleta 1 IZQUIERDA_A_DERECHA) =
     contadores pista_bicicleta"
proof -
  have t: "map_of (tracks pista_izq_der) 1 = Some (the (map_of (tracks pista_izq_der) 1))"
    by (simp add: pista_izq_der_valor)
  have c: "categoria (the (map_of (tracks pista_izq_der) 1)) = ''adulto''"
    by (simp add: pista_izq_der_valor)
  have z: "celda pista_izq_der ''adulto'' IZQUIERDA_A_DERECHA = Some 0"
    "callback_cruce pista_izq_der" "llamadas_callback pista_izq_der = []"
    by (simp_all add: pista_izq_der_valor evaluar)
  have tb: "map_of (tracks pista_bicicleta) 1 = Some (the (map_of (tracks pista_bicicleta) 1))"
    by (simp add: pista_bicicleta_valor)
  have cb: "categoria (the (map_of (tracks pista_bicicleta) 1)) = ''bicicleta''"
    by (simp add: pista_bicicleta_valor)
  have zb: "celda pista_bicicleta ''bicicleta'' IZQUIERDA_A_DERECHA = None"
    by (simp add: pista_bicicleta_valor evaluar evaluar2)
  show ?thesis
    using registrar_cruce_efecto [OF t, of IZQUIERDA_A_DERECHA]
          registrar_cruce_efecto [OF tb, of IZQUIERDA_A_DERECHA]
    by (simp add: c z cb zb)
qed

section \<open>C9: the category used by the bookkeeping\<close>

text \<open>
  Claim C9 as stated (a crossing after an update increments the cell of the most
  recently supplied category) fails: \<^verbatim>\<open>_actualizar_track\<close> never assigns
  \<open>categoria\<close> on an existing track. With the external tracker reporting its track 1
  as \<^verbatim>\<open>adulto\<close> at x = 100 and as \<^verbatim>\<open>bicicleta\<close> at x = 200, the crossing of the
  second frame is counted for \<^verbatim>\<open>adulto\<close> and the \<^verbatim>\<open>bicicleta\<close> cell stays 0.
\<close>

theorem categoria_mas_reciente_ignorada:
  "celda contador_deepsort ''bicicleta'' IZQUIERDA_A_DERECHA = Some 0 \<and>
   celda contador_deepsort ''adulto'' IZQUIERDA_A_DERECHA = Some 0 \<and>
   celda dos_frames_deepsort ''bicicleta'' IZQUIERDA_A_DERECHA = Some 0 \<and>
   celda dos_frames_deepsort ''adulto'' IZQUIERDA_A_DERECHA = Some 1"
  by (simp add: evaluar evaluar2)

text \<open>
  Claim C9, amended. For every existing track, an update call leaves the track's
  category as it was assigned at creation, whatever category the call supplies; a
  crossing registered after such an update increments the cell of the category assigned
  at creation (when that category has a counter entry), and leaves the cell of a
  different supplied category unchanged.
\<close>

theorem actualizar_track_conserva_categoria:
  assumes "map_of (tracks s) tid = Some t" and "d \<noteq> NINGUNA"
  shows
   "(\<exists>t'. map_of (tracks (actualizar_track s tid cat cx cy)) tid = Some t' \<and>
          categoria t' = categoria t) \<and>
    celda (registrar_cruce (actualizar_track s tid cat cx cy) tid d) (categoria t) d =
      map_option (\<lambda>n. n + 1) (celda s (categoria t) d) \<and>
    (cat \<noteq> categoria t \<longrightarrow>
       celda (registrar_cruce (actualizar_track s tid cat cx cy) tid d) cat d = celda s cat d)"
proof -
  let ?s = "actualizar_track s tid cat cx cy"
  obtain t' where t': "map_of (tracks ?s) tid = Some t'" "categoria t' = categoria t"
    using assms(1) by (auto simp: actualizar_track_def Let_def update_conv')
  have c: "contadores ?s = contadores s"
    by (simp add: actualizar_track_def Let_def split: option.splits)
  have e: "celda ?s c' d' = celda s c' d'" for c' d'
    by (simp add: celda_def c)
  show ?thesis
    using t' assms(2) by (cases d) (auto simp: celda_registrar_cruce [OF t'(1)] e)
qed

theorem actualizar_track_conserva_categoria_witness:
  "celda (registrar_cruce (actualizar_track pista_izq_der 1 ''bicicleta'' 210 240) 1
            IZQUIERDA_A_DERECHA) ''adulto'' IZQUIERDA_A_DERECHA = Some 1 \<and>
   celda (registrar_cruce (actualizar_track pista_izq_der 1 ''bicicleta'' 210 240) 1
            IZQUIERDA_A_DERECHA) ''bicicleta'' IZQUIERDA_A_DERECHA = Some 0"
proof -
  have t: "map_of (tracks pista_izq_der) 1 = Some (the (map_of (tracks pista_izq_der) 1))"
    by (simp add: pista_izq_der_valor)
  have c: "categoria (the (map_of (tracks pista_izq_der) 1)) = ''adulto''"
    by (simp add: pista_izq_der_valor)
  have z: "celda pista_izq_der ''adulto'' IZQUIERDA_A_DERECHA = Some 0"
    "celda pista_izq_der ''bicicleta'' IZQUIERDA_A_DERECHA = Some 0"
    by (simp_all add: pista_izq_der_valor evaluar)
  show ?thesis
    using actualizar_track_conserva_categoria
            [OF t, of IZQUIERDA_A_DERECHA "''bicicleta''" 210 240]
    by (simp add: c z)
qed

section \<open>C10: the empty detection list\<close>

text \<open>
  Claim C10. \<^verbatim>\<open>procesar_detecciones([])\<close> returns the empty list and the state it
  was called on: counters, tracks (with their flags and histories) and the next
  identifier are unchanged, whichever tracker is configured and whatever frame is
  passed; no eviction takes place, since the cleaning step is never reached.
\<close>

theorem procesar_detecciones_vacia:
  "procesar_detecciones s [] hay_frame tracks_ext = ([], s)"
  by (simp add: procesar_detecciones_def)

section \<open>C7: reset\<close>

lemma set_update_sub: "set (AList.update k v al) \<subseteq> insert (k, v) (set al)"
  by (induction al) auto

lemma valores_inicializar_aux:
  "\<forall>p \<in> set m0. snd p = v \<Longrightarrow>
   \<forall>p \<in> set (fold (\<lambda>c m. AList.update c v m) cats m0). snd p = v"
proof (induction cats arbitrary: m0)
  case Nil
  then show ?case by simp
next
  case (Cons c cats)
  have "\<forall>p \<in> set (AList.update c v m0). snd p = v"
    using Cons.prems set_update_sub [of c v m0] by auto
  then show ?case using Cons.IH by simp
qed

lemma map_of_inicializar_aux:
  "map_of (fold (\<lambda>c m. AList.update c v m) cats m0) k =
     (if k \<in> set cats then Some v else map_of m0 k)"
  by (induction cats arbitrary: m0) (auto simp: update_conv')

lemma map_of_inicializar_contadores:
  "map_of (inicializar_contadores cats) k =
     (if k \<in> set cats then Some \<lparr>izq_der = 0, der_izq = 0\<rparr> else None)"
  by (simp add: inicializar_contadores_def map_of_inicializar_aux)

lemma valores_inicializar_contadores:
  "p \<in> set (inicializar_contadores cats) \<Longrightarrow> snd p = \<lparr>izq_der = 0, der_izq = 0\<rparr>"
  using valores_inicializar_aux [of "[]" "\<lparr>izq_der = 0, der_izq = 0\<rparr>" cats]
  by (simp add: inicializar_contadores_def)

lemma sum_list_cero:
  "(\<And>x. x \<in> set xs \<Longrightarrow> f x = (0::int)) \<Longrightarrow> sum_list (map f xs) = 0"
  by (induction xs) auto

text \<open>
  Claim C7. From any state, \<^verbatim>\<open>reiniciar_contadores\<close> yields a state in which every
  configured category has both its cells at 0 (and no other cell exists), the totals are
  (0, 0, 0), the track dictionary is empty and the next track identifier is 1; resetting
  a second time gives the same state again.
\<close>

theorem reiniciar_contadores_completo:
  "celda (reiniciar_contadores s) c d =
     (if c \<in> set (categorias s) \<and> d \<noteq> NINGUNA then Some 0 else None) \<and>
   obtener_total_cruces (reiniciar_contadores s) =
     \<lparr>total_izq_der = 0, total_der_izq = 0, total = 0\<rparr> \<and>
   tracks (reiniciar_contadores s) = [] \<and>
   siguiente_track_id (reiniciar_contadores s) = 1 \<and>
   reiniciar_contadores (reiniciar_contadores s) = reiniciar_contadores s"
proof -
  have a: "celda (reiniciar_contadores s) c d =
     (if c \<in> set (categorias s) \<and> d \<noteq> NINGUNA then Some 0 else None)"
    by (cases d)
       (simp_all add: celda_def reiniciar_contadores_def map_of_inicializar_contadores)
  have "sum_list (map (\<lambda>(k, c). izq_der c) (inicializar_contadores (categorias s))) = 0"
    by (rule sum_list_cero) (auto dest: valores_inicializar_contadores)
  moreover
  have "sum_list (map (\<lambda>(k, c). der_izq c) (inicializar_contadores (categorias s))) = 0"
    by (rule sum_list_cero) (auto dest: valores_inicializar_contadores)
  ultimately have b: "obtener_total_cruces (reiniciar_contadores s) =
     \<lparr>total_izq_der = 0, total_der_izq = 0, total = 0\<rparr>"
    by (simp add: obtener_total_cruces_def reiniciar_contadores_def)
  show ?thesis using a b by (simp add: reiniciar_contadores_def)
qed

text \<open>On the state reached after the two frames of the external-tracker example, which
  has a counted crossing and a track.\<close>

theorem reiniciar_contadores_completo_witness:
  "celda dos_frames_deepsort ''adulto'' IZQUIERDA_A_DERECHA = Some 1 \<and>
   tracks dos_frames_deepsort \<noteq> [] \<and>
   celda (reiniciar_contadores dos_frames_deepsort) ''adulto'' IZQUIERDA_A_DERECHA = Some 0 \<and>
   total (obtener_total_cruces (reiniciar_contadores dos_frames_deepsort)) = 0 \<and>
   tracks (reiniciar_contadores dos_frames_deepsort) = [] \<and>
   siguiente_track_id (reiniciar_contadores dos_frames_deepsort) = 1"
proof -
  have c: "''adulto'' \<in> set (categorias dos_frames_deepsort)"
    "celda dos_frames_deepsort ''adulto'' IZQUIERDA_A_DERECHA = Some 1"
    "tracks dos_frames_deepsort \<noteq> []"
    by (simp_all add: evaluar evaluar2)
  show ?thesis
    using reiniciar_contadores_completo
            [of dos_frames_deepsort "''adulto''" IZQUIERDA_A_DERECHA] c
    by simp
qed

section \<open>C8: configuring the line\<close>

text \<open>
  Every way of configuring the line derives \<open>linea_x\<close> from the stored width and the
  stored relative position, and \<^verbatim>\<open>actualizar_posicion_linea\<close> clamps the relative
  position between the doubles 0.1 and 0.9.
\<close>

lemma linea_derivada:
  "linea_x (nuevo_contador ancho alto rel margen cats ds ok cb) =
     linea_en_pixeles (ancho_frame (nuevo_contador ancho alto rel margen cats ds ok cb))
       (linea_posicion_relativa (nuevo_contador ancho alto rel margen cats ds ok cb))"
  "linea_x (actualizar_posicion_linea s p) =
     linea_en_pixeles (ancho_frame (actualizar_posicion_linea s p))
       (linea_posicion_relativa (actualizar_posicion_linea s p))"
  "linea_x (actualizar_dimensiones s ancho alto) =
     linea_en_pixeles (ancho_frame (actualizar_dimensiones s ancho alto))
       (linea_posicion_relativa (actualizar_dimensiones s ancho alto))"
  "doble (1 / 10) \<le> linea_posicion_relativa (actualizar_posicion_linea s p)"
  "linea_posicion_relativa (actualizar_posicion_linea s p) \<le> doble (9 / 10)"
proof -
  have "doble (1 / 10) \<le> doble (9 / 10)" by code_simp
  then show "linea_posicion_relativa (actualizar_posicion_linea s p) \<le> doble (9 / 10)"
    by (simp add: actualizar_posicion_linea_def Let_def)
qed (simp_all add: nuevo_contador_def actualizar_posicion_linea_def
       actualizar_dimensiones_def Let_def)

text \<open>
  The product is the rounded one: with a width of 800 and the position 0.29 the line is
  at pixel 231 (the exact product of 800 and 29/100 would be 232), with a width of 300
  and the position 0.57 at pixel 170.
\<close>

lemma linea_en_pixeles_redondeada:
  "linea_en_pixeles 800 (doble (29 / 100)) = 231"
  "linea_en_pixeles 300 (doble (57 / 100)) = 170"
  "linea_x (actualizar_posicion_linea
              (nuevo_contador 800 600 (1 / 2) 30 None False False False)
              (doble (29 / 100))) = 231"
  "linea_x (actualizar_dimensiones
              (nuevo_contador 640 480 (doble (29 / 100)) 30 None False False False)
              800 600) = 231"
proof -
  show a: "linea_en_pixeles 800 (doble (29 / 100)) = 231"
    unfolding linea_en_pixeles_def by code_simp
  show "linea_en_pixeles 300 (doble (57 / 100)) = 170"
    unfolding linea_en_pixeles_def by code_simp
  have "max (doble (1 / 10)) (min (doble (9 / 10)) (doble (29 / 100))) = doble (29 / 100)"
    by code_simp
  then show "linea_x (actualizar_posicion_linea
              (nuevo_contador 800 600 (1 / 2) 30 None False False False)
              (doble (29 / 100))) = 231"
    by (simp add: actualizar_posicion_linea_def nuevo_contador_def Let_def a)
  show "linea_x (actualizar_dimensiones
              (nuevo_contador 640 480 (doble (29 / 100)) 30 None False False False)
              800 600) = 231"
    by (simp add: actualizar_dimensiones_def nuevo_contador_def Let_def a)
qed

text \<open>
  Claim C8 says that the stored relative position lies in [0.1, 0.9] also at
  construction. The constructor stores its argument as it is: built with relative
  position 0.95 on a 640 pixel wide frame, the counter stores 0.95, which is above 0.9,
  and puts the line at pixel 608, where \<^verbatim>\<open>actualizar_posicion_linea\<close> called with
  the same 0.95 stores 0.9 and puts the line at pixel 576.
\<close>

theorem nuevo_contador_sin_recorte:
  "linea_posicion_relativa
     (nuevo_contador 640 480 (doble (19 / 20)) 30 None False False False) = doble (19 / 20) \<and>
   doble (9 / 10) < doble (19 / 20) \<and>
   linea_x (nuevo_contador 640 480 (doble (19 / 20)) 30 None False False False) = 608 \<and>
   linea_posicion_relativa
     (actualizar_posicion_linea
        (nuevo_contador 640 480 (1 / 2) 30 None False False False) (doble (19 / 20)))
     = doble (9 / 10) \<and>
   linea_x
     (actualizar_posicion_linea
        (nuevo_contador 640 480 (1 / 2) 30 None False False False) (doble (19 / 20))) = 576"
proof -
  have a: "linea_en_pixeles 640 (doble (19 / 20)) = 608"
    unfolding linea_en_pixeles_def by code_simp
  have b: "linea_en_pixeles 640 (doble (9 / 10)) = 576"
    unfolding linea_en_pixeles_def by code_simp
  have c: "doble (9 / 10) < doble (19 / 20)" by code_simp
  have d: "max (doble (1 / 10)) (min (doble (9 / 10)) (doble (19 / 20))) = doble (9 / 10)"
    by code_simp
  have e: "max (doble (1 / 10)) (doble (9 / 10)) = doble (9 / 10)" by code_simp
  show ?thesis
    by (simp add: nuevo_contador_def actualizar_posicion_linea_def Let_def a b c d e)
qed

section \<open>Facts about one step of one track\<close>

lemma historial_recortado:
  fixes h :: "'a list" and p :: 'a
  assumes "h \<noteq> []"
  defines "g \<equiv> h @ [p]"
  defines "g' \<equiv> (if length g > 50 then drop (length g - 50) g else g)"
  shows "2 \<le> length g'" and "g' ! (length g' - 1) = p" and "g' ! (length g' - 2) = last h"
    and "last g' = p"
proof -
  have lg: "length g = length h + 1" "length h \<ge> 1"
    using assms(1) by (simp_all add: g_def Suc_le_eq)
  show 1: "2 \<le> length g'" using lg by (simp add: g'_def)
  have a: "g ! (length g - 1) = p" by (simp add: g_def)
  have b: "g ! (length g - 2) = last h"
    using assms(1) lg by (simp add: g_def nth_append last_conv_nth)
  show 2: "g' ! (length g' - 1) = p"
    using a lg by (auto simp: g'_def)
  show "g' ! (length g' - 2) = last h"
    using b lg by (auto simp: g'_def)
  have "g' \<noteq> []" using 1 by auto
  then show "last g' = p" using 2 by (simp add: last_conv_nth)
qed

lemma contadores_registrar_cruce:
  "map_of (tracks s) tid = Some t \<Longrightarrow>
   contadores (registrar_cruce s tid d) = incrementar (contadores s) (categoria t) d"
  by (simp add: registrar_cruce_def incrementar_def Let_def split: option.splits)

lemma campos_actualizar_track [simp]:
  "contadores (actualizar_track s tid cat cx cy) = contadores s"
  "llamadas_callback (actualizar_track s tid cat cx cy) = llamadas_callback s"
  "linea_x (actualizar_track s tid cat cx cy) = linea_x s"
  "margen_cruce (actualizar_track s tid cat cx cy) = margen_cruce s"
  "siguiente_track_id (actualizar_track s tid cat cx cy) = siguiente_track_id s"
  "callback_cruce (actualizar_track s tid cat cx cy) = callback_cruce s"
  "categorias (actualizar_track s tid cat cx cy) = categorias s"
  by (simp_all add: actualizar_track_def Let_def split: option.splits)

lemma campos_verificar_cruce [simp]:
  "linea_x (verificar_cruce s tid) = linea_x s"
  "margen_cruce (verificar_cruce s tid) = margen_cruce s"
  "siguiente_track_id (verificar_cruce s tid) = siguiente_track_id s"
  "callback_cruce (verificar_cruce s tid) = callback_cruce s"
  "categorias (verificar_cruce s tid) = categorias s"
  by (simp_all add: verificar_cruce_def Let_def split: option.splits)

text \<open>The track after an update of an existing track.\<close>

lemma tracks_actualizar_existente:
  assumes "map_of (tracks s) tid = Some t"
  shows "map_of (tracks (actualizar_track s tid cat cx cy)) =
     (map_of (tracks s))(tid \<mapsto>
        t\<lparr>ultima_posicion_x := cx, frames_vistos := frames_vistos t + 1,
          historial_posiciones :=
            (if length (historial_posiciones t @ [(cx, cy)]) > 50
             then drop (length (historial_posiciones t @ [(cx, cy)]) - 50)
                    (historial_posiciones t @ [(cx, cy)])
             else historial_posiciones t @ [(cx, cy)])\<rparr>)"
  using assms by (simp add: actualizar_track_def Let_def update_conv')

lemma tracks_actualizar_nuevo:
  assumes "map_of (tracks s) tid = None"
  shows "map_of (tracks (actualizar_track s tid cat cx cy)) =
     (map_of (tracks s))(tid \<mapsto> nuevo_track tid cat cx cy)"
  using assms by (simp add: actualizar_track_def Let_def update_conv')

text \<open>One step of an existing track with a non-empty history, summarised.\<close>

lemma paso_track_resumen:
  fixes s :: BidirectionalCounter and tid :: int and cat :: string and x y :: int
  assumes t: "map_of (tracks s) tid = Some t" and h: "historial_posiciones t \<noteq> []"
  defines "a \<equiv> fst (last (historial_posiciones t))"
  defines "L \<equiv> linea_x s"
  defines "s' \<equiv> paso_track s tid cat (x, y)"
  shows "\<exists>t'. map_of (tracks s') tid = Some t' \<and> categoria t' = categoria t \<and>
           historial_posiciones t' \<noteq> [] \<and> last (historial_posiciones t') = (x, y) \<and>
           (if a < L \<and> L \<le> x \<and> puede_cruzar t then
              \<not> puede_cruzar t' \<and> cruzado t' \<and>
              contadores s' = incrementar (contadores s) (categoria t) IZQUIERDA_A_DERECHA
            else if a > L \<and> x \<le> L \<and> puede_cruzar t then
              \<not> puede_cruzar t' \<and> cruzado t' \<and>
              contadores s' = incrementar (contadores s) (categoria t) DERECHA_A_IZQUIERDA
            else
              contadores s' = contadores s \<and> cruzado t' = cruzado t \<and>
              llamadas_callback s' = llamadas_callback s \<and>
              (puede_cruzar t' \<longleftrightarrow> puede_cruzar t \<or>
                 (\<not> (a < L \<and> L \<le> x) \<and> \<not> (a > L \<and> x \<le> L) \<and> \<bar>x - L\<bar> > margen_cruce s)))"
proof -
  let ?g = "historial_posiciones t @ [(x, y)]"
  let ?g' = "if length ?g > 50 then drop (length ?g - 50) ?g else ?g"
  let ?t1 = "t\<lparr>ultima_posicion_x := x, frames_vistos := frames_vistos t + 1,
               historial_posiciones := ?g'\<rparr>"
  let ?s1 = "actualizar_track s tid cat x y"
  have t1: "map_of (tracks ?s1) tid = Some ?t1"
    using tracks_actualizar_existente [OF t, of cat x y] by simp
  note hr = historial_recortado [OF h, of "(x, y)"]
  have len: "\<not> length (historial_posiciones ?t1) < 2" using hr(1) by simp
  have prev: "fst (historial_posiciones ?t1 ! (length (historial_posiciones ?t1) - 2)) = a"
    using hr(3) by (simp add: a_def)
  have cur: "fst (historial_posiciones ?t1 ! (length (historial_posiciones ?t1) - 1)) = x"
    using hr(2) by simp
  have lst: "last (historial_posiciones ?t1) = (x, y)" "historial_posiciones ?t1 \<noteq> []"
    using hr(4) hr(1) by auto
  have s': "s' = verificar_cruce ?s1 tid" by (simp add: s'_def paso_track_def)
  show ?thesis
    unfolding s' verificar_cruce_def
    using t1 len prev cur lst
    by (auto simp: tracks_modificar_track tracks_registrar_cruce contadores_registrar_cruce
          L_def Let_def simp del: length_append)
qed



lemma linea_paso_track [simp]:
  "linea_x (paso_track s tid cat p) = linea_x s"
  "margen_cruce (paso_track s tid cat p) = margen_cruce s"
  by (simp_all add: paso_track_def)

lemma celda_incrementar:
  assumes "contadores s' = incrementar (contadores s) cat d"
  shows "celda s' c d' =
     (if c = cat \<and> d' \<noteq> NINGUNA \<and> (d' = IZQUIERDA_A_DERECHA \<longleftrightarrow> d = IZQUIERDA_A_DERECHA)
      then map_option (\<lambda>n. n + 1) (celda s c d') else celda s c d')"
  using assms
  by (auto simp: celda_def incrementar_def update_conv' split: option.splits Direccion.splits)

lemma seguir_track_Cons:
  "seguir_track s tid cat (p # ms) = seguir_track (paso_track s tid cat p) tid cat ms"
  by (simp add: seguir_track_def)

lemma seguir_track_derecha:
  assumes "map_of (tracks s) tid = Some t" and "historial_posiciones t \<noteq> []"
    and "linea_x s \<le> fst (last (historial_posiciones t))"
    and "sorted (fst (last (historial_posiciones t)) # map fst ms)"
  shows "contadores (seguir_track s tid cat ms) = contadores s"
  using assms
proof (induction ms arbitrary: s t)
  case Nil
  then show ?case by (simp add: seguir_track_def)
next
  case (Cons p ms)
  obtain x y where p: "p = (x, y)" by (cases p)
  let ?s' = "paso_track s tid cat (x, y)"
  from Cons.prems have ax: "fst (last (historial_posiciones t)) \<le> x" by (simp add: p)
  from paso_track_resumen [OF Cons.prems(1,2), of cat x y] Cons.prems(3) ax
  obtain t' where t': "map_of (tracks ?s') tid = Some t'"
      "historial_posiciones t' \<noteq> []" "last (historial_posiciones t') = (x, y)"
      "contadores ?s' = contadores s"
    by (auto split: if_splits)
  have "sorted (fst (last (historial_posiciones t')) # map fst ms)"
    using Cons.prems(4) by (simp add: t'(3) p)
  moreover have "linea_x ?s' \<le> fst (last (historial_posiciones t'))"
    using Cons.prems(3) ax by (simp add: t'(3))
  ultimately have "contadores (seguir_track ?s' tid cat ms) = contadores ?s'"
    using Cons.IH [OF t'(1,2)] by simp
  then show ?case by (simp add: seguir_track_Cons p t'(4))
qed

lemma seguir_track_izquierda:
  assumes "map_of (tracks s) tid = Some t" and "historial_posiciones t \<noteq> []"
    and "puede_cruzar t"
    and "fst (last (historial_posiciones t)) < linea_x s"
    and "sorted (map fst ms)" and "ms \<noteq> []" and "linea_x s \<le> fst (last ms)"
  shows "contadores (seguir_track s tid cat ms) =
           incrementar (contadores s) (categoria t) IZQUIERDA_A_DERECHA"
  using assms
proof (induction ms arbitrary: s t)
  case Nil
  then show ?case by simp
next
  case (Cons p ms)
  obtain x y where p: "p = (x, y)" by (cases p)
  let ?s' = "paso_track s tid cat (x, y)"
  note r = paso_track_resumen [OF Cons.prems(1,2), of cat x y]
  show ?case
  proof (cases "linea_x s \<le> x")
    case True
    from r Cons.prems(3,4) True
    obtain t' where t': "map_of (tracks ?s') tid = Some t'"
      "historial_posiciones t' \<noteq> []" "last (historial_posiciones t') = (x, y)"
      "contadores ?s' = incrementar (contadores s) (categoria t) IZQUIERDA_A_DERECHA"
      by (auto split: if_splits)
    have "sorted (fst (last (historial_posiciones t')) # map fst ms)"
      using Cons.prems(5) by (simp add: t'(3) p)
    moreover have "linea_x ?s' \<le> fst (last (historial_posiciones t'))"
      using True by (simp add: t'(3))
    ultimately have "contadores (seguir_track ?s' tid cat ms) = contadores ?s'"
      using seguir_track_derecha [OF t'(1,2)] by simp
    then show ?thesis by (simp add: seguir_track_Cons p t'(4))
  next
    case False
    from r Cons.prems(3,4) False
    obtain t' where t': "map_of (tracks ?s') tid = Some t'"
      "historial_posiciones t' \<noteq> []" "last (historial_posiciones t') = (x, y)"
      "contadores ?s' = contadores s" "puede_cruzar t'" "categoria t' = categoria t"
      by (auto split: if_splits)
    have ne: "ms \<noteq> []" using Cons.prems(7) False by (auto simp: p)
    have "contadores (seguir_track ?s' tid cat ms) =
            incrementar (contadores ?s') (categoria t') IZQUIERDA_A_DERECHA"
      using Cons.IH [OF t'(1,2,5)] False Cons.prems(5,7) ne by (simp add: t'(3))
    then show ?thesis by (simp add: seguir_track_Cons p t'(4,6))
  qed
qed

lemma paso_track_nuevo:
  assumes "map_of (tracks s) tid = None"
  shows "map_of (tracks (paso_track s tid cat (x, y))) tid = Some (nuevo_track tid cat x y)"
    and "contadores (paso_track s tid cat (x, y)) = contadores s"
proof -
  have 1: "map_of (tracks (actualizar_track s tid cat x y)) tid = Some (nuevo_track tid cat x y)"
    using tracks_actualizar_nuevo [OF assms] by simp
  have 2: "verificar_cruce (actualizar_track s tid cat x y) tid = actualizar_track s tid cat x y"
    using 1 by (simp add: verificar_cruce_def nuevo_track_def)
  show "map_of (tracks (paso_track s tid cat (x, y))) tid = Some (nuevo_track tid cat x y)"
    using 1 2 by (simp add: paso_track_def)
  show "contadores (paso_track s tid cat (x, y)) = contadores s"
    using 2 by (simp add: paso_track_def)
qed

section \<open>C2: one left-to-right pass is counted once\<close>

text \<open>
  Claim C2 as stated (for every track) fails for a track whose category has no counter
  entry: on the counter configured for \<^verbatim>\<open>adulto\<close> only, the pass of a
  \<^verbatim>\<open>bicicleta\<close> track through the line changes no counter, and there is no
  (\<^verbatim>\<open>bicicleta\<close>, left-to-right) cell.
\<close>

theorem pasada_categoria_ajena_no_cuenta:
  "contadores (seguir_track contador_solo_adultos 1 ''bicicleta'' muestras_pasada) =
     contadores contador_solo_adultos \<and>
   celda (seguir_track contador_solo_adultos 1 ''bicicleta'' muestras_pasada)
     ''bicicleta'' IZQUIERDA_A_DERECHA = None"
  by (simp add: seguir_track_def paso_track_def muestras_pasada_def evaluar evaluar2)

text \<open>
  Claim C2, amended. Let a track be created by the first of its samples and let its
  category have a counter entry, with \<open>n\<close> in the left-to-right cell. If the
  x-coordinates of the samples are monotonically non-decreasing, start strictly left of
  the line and end strictly right of it (in particular when they end beyond the margin),
  then processing the samples in order, each by the update and the crossing check, leaves
  \<open>n + 1\<close> in the (category, left-to-right) cell and every other cell as it was,
  however many samples there are and however close to the line they fall.
\<close>

theorem pasada_izq_der_cuenta_una_vez:
  assumes "map_of (tracks s) tid = None"
    and "muestras \<noteq> []" and "sorted (map fst muestras)"
    and "fst (hd muestras) < linea_x s" and "linea_x s < fst (last muestras)"
    and "celda s cat IZQUIERDA_A_DERECHA = Some n"
  shows "celda (seguir_track s tid cat muestras) c d =
           (if c = cat \<and> d = IZQUIERDA_A_DERECHA then Some (n + 1) else celda s c d)"
proof -
  obtain x y ms where m: "muestras = (x, y) # ms"
    using assms(2) by (cases muestras) auto
  let ?s1 = "paso_track s tid cat (x, y)"
  note n = paso_track_nuevo [OF assms(1), of cat x y]
  have ne: "ms \<noteq> []" using assms(4,5) by (auto simp: m)
  have "contadores (seguir_track ?s1 tid cat ms) =
          incrementar (contadores ?s1) (categoria (nuevo_track tid cat x y)) IZQUIERDA_A_DERECHA"
    using seguir_track_izquierda [OF n(1), of ms cat] assms(3,4,5) ne
    by (simp add: m nuevo_track_def)
  then have "contadores (seguir_track s tid cat muestras) =
          incrementar (contadores s) cat IZQUIERDA_A_DERECHA"
    by (simp add: m seguir_track_Cons n(2) nuevo_track_def)
  from celda_incrementar [OF this, of c d] assms(6) show ?thesis
    by (cases d) auto
qed

theorem pasada_izq_der_cuenta_una_vez_witness:
  "celda contador_ejemplo ''adulto'' IZQUIERDA_A_DERECHA = Some 0 \<and>
   celda (seguir_track contador_ejemplo 1 ''adulto'' muestras_pasada)
     ''adulto'' IZQUIERDA_A_DERECHA = Some 1 \<and>
   celda (seguir_track contador_ejemplo 1 ''adulto'' muestras_pasada)
     ''adulto'' DERECHA_A_IZQUIERDA = Some 0"
proof -
  have h: "map_of (tracks contador_ejemplo) 1 = None" "muestras_pasada \<noteq> []"
    "sorted (map fst muestras_pasada)"
    "fst (hd muestras_pasada) < linea_x contador_ejemplo"
    "linea_x contador_ejemplo < fst (last muestras_pasada)"
    "celda contador_ejemplo ''adulto'' IZQUIERDA_A_DERECHA = Some 0"
    "celda contador_ejemplo ''adulto'' DERECHA_A_IZQUIERDA = Some 0"
    by (simp_all add: muestras_pasada_def evaluar)
  show ?thesis
    using pasada_izq_der_cuenta_una_vez [OF h(1-6), of "''adulto''" IZQUIERDA_A_DERECHA]
          pasada_izq_der_cuenta_una_vez [OF h(1-6), of "''adulto''" DERECHA_A_IZQUIERDA]
          h(6,7)
    by simp
qed

section \<open>Facts about the operations\<close>

lemma tracks_verificar_otro:
  "k \<noteq> tid \<Longrightarrow> map_of (tracks (verificar_cruce s tid)) k = map_of (tracks s) k"
  by (auto simp: verificar_cruce_def Let_def tracks_modificar_track tracks_registrar_cruce
           split: option.splits)

lemma puede_cruzar_verificar:
  assumes "map_of (tracks s) tid = Some t"
  shows "\<exists>t'. map_of (tracks (verificar_cruce s tid)) tid = Some t' \<and>
           (puede_cruzar t' \<longleftrightarrow>
              (if length (historial_posiciones t) < 2 then puede_cruzar t
               else if cruza_izq_der t (linea_x s) \<or> cruza_der_izq t (linea_x s) then False
               else distancia_a_linea t (linea_x s) > margen_cruce s \<or> puede_cruzar t))"
  using assms
  by (auto simp: verificar_cruce_def Let_def tracks_modificar_track tracks_registrar_cruce
        cruza_izq_der_def cruza_der_izq_def distancia_a_linea_def)

lemma map_of_fold_delete:
  "map_of (fold AList.delete ks al) k = (if k \<in> set ks then None else map_of al k)"
  by (induction ks arbitrary: al) (auto simp: delete_conv')

lemma tracks_limpiar:
  "map_of (tracks (limpiar_tracks_antiguos s activos)) k =
     (case map_of (tracks s) k of None \<Rightarrow> None
      | Some t \<Rightarrow> if k \<in> fst ` {p \<in> set (tracks s). fst p \<notin> activos \<and> cruzado (snd p)}
                  then None else Some t)"
  by (auto simp: limpiar_tracks_antiguos_def map_of_fold_delete Let_def split: option.splits prod.splits)

lemma tracks_crear_track:
  "map_of (tracks (crear_track s cat cx cy)) =
     (map_of (tracks s))(siguiente_track_id s \<mapsto> nuevo_track (siguiente_track_id s) cat cx cy)"
  by (simp add: crear_track_def Let_def update_conv')

lemma tracks_actualizar_otro:
  "k \<noteq> tid \<Longrightarrow> map_of (tracks (actualizar_track s tid cat cx cy)) k = map_of (tracks s) k"
  by (auto simp: actualizar_track_def Let_def update_conv' split: option.splits)

lemma tracks_actualizar_track:
  "map_of (tracks (actualizar_track s tid cat cx cy)) =
     (map_of (tracks s))(tid \<mapsto>
        (case map_of (tracks s) tid of
           None \<Rightarrow> nuevo_track tid cat cx cy
         | Some t \<Rightarrow>
            t\<lparr>ultima_posicion_x := cx, frames_vistos := frames_vistos t + 1,
              historial_posiciones :=
                (if length (historial_posiciones t @ [(cx, cy)]) > 50
                 then drop (length (historial_posiciones t @ [(cx, cy)]) - 50)
                        (historial_posiciones t @ [(cx, cy)])
                 else historial_posiciones t @ [(cx, cy)])\<rparr>))"
  by (simp add: actualizar_track_def Let_def update_conv' split: option.splits)

lemma ejecutar_no_crea:
  assumes "\<not> crea op s k"
  shows "map_of (tracks s) k = None \<Longrightarrow> map_of (tracks (ejecutar op s)) k = None"
    and "map_of (tracks s) k = Some t \<Longrightarrow> map_of (tracks (ejecutar op s)) k = Some t' \<Longrightarrow>
         puede_cruzar t' \<noteq> puede_cruzar t \<Longrightarrow> op = VerificarCruce k"
proof -
  show "map_of (tracks s) k = None \<Longrightarrow> map_of (tracks (ejecutar op s)) k = None"
    using assms
    by (cases op)
       (auto simp: tracks_crear_track tracks_actualizar_track tracks_registrar_cruce
          tracks_limpiar actualizar_posicion_linea_def actualizar_dimensiones_def
          reiniciar_contadores_def Let_def verificar_cruce_def tracks_modificar_track
          split: option.splits)
  show "op = VerificarCruce k"
    if "map_of (tracks s) k = Some t" and "map_of (tracks (ejecutar op s)) k = Some t'"
      and "puede_cruzar t' \<noteq> puede_cruzar t"
  proof (cases op)
    case (VerificarCruce tid)
    then show ?thesis
      using that by (cases "tid = k") (auto simp: tracks_verificar_otro)
  qed (use that assms in \<open>auto simp: tracks_crear_track tracks_actualizar_track
          tracks_registrar_cruce tracks_limpiar actualizar_posicion_linea_def
          actualizar_dimensiones_def reiniciar_contadores_def Let_def
          split: option.splits if_splits\<close>)
qed


lemma crea_puede_cruzar:
  "crea op s k \<Longrightarrow> \<exists>t'. map_of (tracks (ejecutar op s)) k = Some t' \<and> puede_cruzar t'"
  by (cases op) (auto simp: tracks_crear_track tracks_actualizar_track nuevo_track_def)

text \<open>The frame loops are sequences of the operations.\<close>

lemma paso_deteccion_secuencia:
  "\<exists>ops. fst (paso_deteccion det (s, u, out)) = fold ejecutar ops s"
proof (cases "encontrar_track_cercano s (fst (det_centro det)) (snd (det_centro det))
                (det_categoria det) u")
  case None
  have "fst (paso_deteccion det (s, u, out)) =
          fold ejecutar [CrearTrack (det_categoria det) (fst (det_centro det)) (snd (det_centro det)),
                         VerificarCruce (siguiente_track_id s)] s"
    using None by (simp add: paso_deteccion_def Let_def)
  then show ?thesis by blast
next
  case (Some tid)
  have "fst (paso_deteccion det (s, u, out)) =
          fold ejecutar [ActualizarTrack tid (det_categoria det) (fst (det_centro det))
                           (snd (det_centro det)),
                         VerificarCruce tid] s"
    using Some by (simp add: paso_deteccion_def Let_def)
  then show ?thesis by blast
qed

lemma fold_paso_deteccion_secuencia:
  "\<exists>ops. fst (fold paso_deteccion dets (s, u, out)) = fold ejecutar ops s"
proof (induction dets arbitrary: s u out)
  case Nil
  have "fst (fold paso_deteccion [] (s, u, out)) = fold ejecutar [] s" by simp
  then show ?case by blast
next
  case (Cons det dets)
  obtain s1 u1 out1 where 1: "paso_deteccion det (s, u, out) = (s1, u1, out1)"
    by (cases "paso_deteccion det (s, u, out)") auto
  obtain ops1 where o1: "s1 = fold ejecutar ops1 s"
    using paso_deteccion_secuencia [of det s u out] 1 by auto
  obtain ops2 where o2: "fst (fold paso_deteccion dets (s1, u1, out1)) = fold ejecutar ops2 s1"
    using Cons.IH by blast
  have "fst (fold paso_deteccion (det # dets) (s, u, out)) = fold ejecutar ops2 s1"
    using o2 by (simp add: 1)
  then have "fst (fold paso_deteccion (det # dets) (s, u, out)) = fold ejecutar (ops1 @ ops2) s"
    unfolding o1 by simp
  then show ?case by blast
qed

lemma tracker_simple_secuencia:
  "\<exists>ops. snd (procesar_con_tracker_simple s dets) = fold ejecutar ops s"
proof -
  obtain s1 u1 out1 where 1: "fold paso_deteccion dets (s, {}, []) = (s1, u1, out1)"
    by (cases "fold paso_deteccion dets (s, {}, [])") auto
  obtain ops where o: "s1 = fold ejecutar ops s"
    using fold_paso_deteccion_secuencia [of dets s "{}" "[]"] 1 by auto
  have "snd (procesar_con_tracker_simple s dets) =
          fold ejecutar (ops @ [LimpiarTracksAntiguos u1]) s"
    by (simp add: procesar_con_tracker_simple_def 1 o)
  then show ?thesis by blast
qed

lemma fold_paso_deepsort_secuencia:
  "\<exists>ops. fst (fold paso_deepsort trs (s, out)) = fold ejecutar ops s"
proof (induction trs arbitrary: s out)
  case Nil
  have "fst (fold paso_deepsort [] (s, out)) = fold ejecutar [] s" by simp
  then show ?case by blast
next
  case (Cons tr trs)
  obtain s1 out1 where 1: "paso_deepsort tr (s, out) = (s1, out1)"
    by (cases "paso_deepsort tr (s, out)") auto
  have "\<exists>ops1. s1 = fold ejecutar ops1 s"
  proof (cases "ext_confirmado tr")
    case False
    then have "s1 = fold ejecutar [] s" using 1 by (simp add: paso_deepsort_def)
    then show ?thesis by blast
  next
    case True
    obtain x1 y1 x2 y2 where b: "ext_ltrb tr = (x1, y1, x2, y2)"
      by (cases "ext_ltrb tr") auto
    have "s1 = fold ejecutar
            [ActualizarTrack (ext_track_id tr)
               (case ext_clase tr of None \<Rightarrow> ''adulto'' | Some c \<Rightarrow> c)
               ((x1 + x2) div 2) ((y1 + y2) div 2),
             VerificarCruce (ext_track_id tr)] s"
      using 1 True b by (auto simp: paso_deepsort_def Let_def)
    then show ?thesis by blast
  qed
  then obtain ops1 where o1: "s1 = fold ejecutar ops1 s" by blast
  obtain ops2 where o2: "fst (fold paso_deepsort trs (s1, out1)) = fold ejecutar ops2 s1"
    using Cons.IH by blast
  have "fst (fold paso_deepsort (tr # trs) (s, out)) = fold ejecutar ops2 s1"
    using o2 by (simp add: 1)
  then have "fst (fold paso_deepsort (tr # trs) (s, out)) = fold ejecutar (ops1 @ ops2) s"
    unfolding o1 by simp
  then show ?case by blast
qed

lemma deepsort_secuencia:
  "\<exists>ops. snd (procesar_con_deepsort s trs) = fold ejecutar ops s"
proof -
  obtain ops where "fst (fold paso_deepsort trs (s, [])) = fold ejecutar ops s"
    using fold_paso_deepsort_secuencia by blast
  then have "snd (procesar_con_deepsort s trs) = fold ejecutar ops s"
    by (cases "fold paso_deepsort trs (s, [])") (simp add: procesar_con_deepsort_def)
  then show ?thesis by blast
qed

lemma procesar_detecciones_secuencia:
  "\<exists>ops. snd (procesar_detecciones s dets hay_frame trs) = fold ejecutar ops s"
proof (cases "dets = []")
  case True
  then have "snd (procesar_detecciones s dets hay_frame trs) = fold ejecutar [] s"
    by (simp add: procesar_detecciones_def)
  then show ?thesis by blast
next
  case False
  then show ?thesis
    using tracker_simple_secuencia [of s dets] deepsort_secuencia [of s trs]
    by (cases "usar_deepsort s \<and> hay_frame") (simp_all add: procesar_detecciones_def)
qed

lemma tracks_pista_cruzada:
  "tracks pista_cruzada =
     [(1, \<lparr>track_id = 1, categoria = ''adulto'', ultima_posicion_x = 200,
         posicion_inicial_x = 100, cruzado = True,
         direccion_cruce = Some IZQUIERDA_A_DERECHA, frames_vistos = 2,
         historial_posiciones = [(100, 240), (200, 240)],
         ultimo_lado = ''derecha'', puede_cruzar = False\<rparr>)]"
  by (simp add: pista_cruzada_def pista_izq_der_valor evaluar)

lemma tracks_pista_alejada:
  "tracks pista_alejada =
     [(1, \<lparr>track_id = 1, categoria = ''adulto'', ultima_posicion_x = 210,
         posicion_inicial_x = 100, cruzado = True,
         direccion_cruce = Some IZQUIERDA_A_DERECHA, frames_vistos = 3,
         historial_posiciones = [(100, 240), (200, 240), (210, 240)],
         ultimo_lado = ''derecha'', puede_cruzar = False\<rparr>)]"
  by (simp add: pista_alejada_def tracks_pista_cruzada actualizar_track_def Let_def)

lemma campos_pista_alejada:
  "linea_x pista_alejada = 150" "margen_cruce pista_alejada = 30"
  by (simp_all add: pista_alejada_def pista_cruzada_def pista_izq_der_valor evaluar)

lemma tracks_pista_rearmada:
  "tracks (verificar_cruce pista_alejada 1) =
     [(1, \<lparr>track_id = 1, categoria = ''adulto'', ultima_posicion_x = 210,
         posicion_inicial_x = 100, cruzado = True,
         direccion_cruce = Some IZQUIERDA_A_DERECHA, frames_vistos = 3,
         historial_posiciones = [(100, 240), (200, 240), (210, 240)],
         ultimo_lado = ''derecha'', puede_cruzar = True\<rparr>)]"
  by (simp add: verificar_cruce_def tracks_pista_alejada campos_pista_alejada Let_def
        modificar_track_def)

section \<open>C4: the flag \<open>puede_cruzar\<close>\<close>

text \<open>
  Claim C4. For every operation \<open>op\<close> on every state and every track identifier
  \<open>k\<close>: when the operation creates the track object under \<open>k\<close>, the new track has
  \<open>puede_cruzar\<close> true; no other operation makes a track appear. For a track that is
  under \<open>k\<close> before and after an operation that does not create it, \<open>puede_cruzar\<close>
  goes from true to false exactly when the operation is the crossing check of \<open>k\<close>
  and it registers a crossing (at least 2 history entries, one of the two crossing
  geometries, flag set), and goes from false to true exactly when the operation is the
  crossing check of \<open>k\<close>, the last two positions satisfy neither crossing geometry and
  the current centroid is farther from the line than the margin. Updates,
  registrations, cleaning, line and frame configuration and the reset never change the
  flag of a track they keep.
\<close>

theorem puede_cruzar_invariante:
  "(crea op s k \<longrightarrow>
      (\<exists>t'. map_of (tracks (ejecutar op s)) k = Some t' \<and> puede_cruzar t')) \<and>
   (\<not> crea op s k \<and> map_of (tracks s) k = None \<longrightarrow>
      map_of (tracks (ejecutar op s)) k = None) \<and>
   (\<not> crea op s k \<and> map_of (tracks s) k = Some t \<and>
    map_of (tracks (ejecutar op s)) k = Some t' \<longrightarrow>
      (puede_cruzar t \<and> \<not> puede_cruzar t' \<longleftrightarrow>
         op = VerificarCruce k \<and> 2 \<le> length (historial_posiciones t) \<and> puede_cruzar t \<and>
         (cruza_izq_der t (linea_x s) \<or> cruza_der_izq t (linea_x s))) \<and>
      (\<not> puede_cruzar t \<and> puede_cruzar t' \<longleftrightarrow>
         op = VerificarCruce k \<and> 2 \<le> length (historial_posiciones t) \<and> \<not> puede_cruzar t \<and>
         \<not> cruza_izq_der t (linea_x s) \<and> \<not> cruza_der_izq t (linea_x s) \<and>
         distancia_a_linea t (linea_x s) > margen_cruce s))"
proof (intro conjI impI)
  show "\<exists>t'. map_of (tracks (ejecutar op s)) k = Some t' \<and> puede_cruzar t'" if "crea op s k"
    using that by (rule crea_puede_cruzar)
  show "map_of (tracks (ejecutar op s)) k = None"
    if "\<not> crea op s k \<and> map_of (tracks s) k = None"
    using that ejecutar_no_crea(1) by blast
next
  assume a: "\<not> crea op s k \<and> map_of (tracks s) k = Some t \<and>
    map_of (tracks (ejecutar op s)) k = Some t'"
  have v: "puede_cruzar t' \<longleftrightarrow>
              (if length (historial_posiciones t) < 2 then puede_cruzar t
               else if cruza_izq_der t (linea_x s) \<or> cruza_der_izq t (linea_x s) then False
               else distancia_a_linea t (linea_x s) > margen_cruce s \<or> puede_cruzar t)"
    if "op = VerificarCruce k"
    using puede_cruzar_verificar [of s k t] a that by auto
  have o: "op = VerificarCruce k" if "puede_cruzar t' \<noteq> puede_cruzar t"
    using ejecutar_no_crea(2) [of op s k t t'] a that by blast
  show "puede_cruzar t \<and> \<not> puede_cruzar t' \<longleftrightarrow>
         op = VerificarCruce k \<and> 2 \<le> length (historial_posiciones t) \<and> puede_cruzar t \<and>
         (cruza_izq_der t (linea_x s) \<or> cruza_der_izq t (linea_x s))"
    using v o by (auto split: if_splits)
  show "\<not> puede_cruzar t \<and> puede_cruzar t' \<longleftrightarrow>
         op = VerificarCruce k \<and> 2 \<le> length (historial_posiciones t) \<and> \<not> puede_cruzar t \<and>
         \<not> cruza_izq_der t (linea_x s) \<and> \<not> cruza_der_izq t (linea_x s) \<and>
         distancia_a_linea t (linea_x s) > margen_cruce s"
    using v o by (auto split: if_splits)
qed

theorem puede_cruzar_invariante_witness:
  "crea (CrearTrack ''adulto'' 100 240) contador_ejemplo 1 \<and>
   (\<exists>t'. map_of (tracks (ejecutar (CrearTrack ''adulto'' 100 240) contador_ejemplo)) 1 = Some t'
         \<and> puede_cruzar t') \<and>
   puede_cruzar (the (map_of (tracks pista_izq_der) 1)) \<and>
   cruza_izq_der (the (map_of (tracks pista_izq_der) 1)) (linea_x pista_izq_der) \<and>
   \<not> puede_cruzar (the (map_of (tracks (ejecutar (VerificarCruce 1) pista_izq_der)) 1)) \<and>
   \<not> puede_cruzar (the (map_of (tracks pista_alejada) 1)) \<and>
   distancia_a_linea (the (map_of (tracks pista_alejada) 1)) (linea_x pista_alejada)
     > margen_cruce pista_alejada \<and>
   puede_cruzar (the (map_of (tracks (ejecutar (VerificarCruce 1) pista_alejada)) 1))"
proof -
  let ?t = "the (map_of (tracks pista_izq_der) 1)"
  let ?t' = "the (map_of (tracks (ejecutar (VerificarCruce 1) pista_izq_der)) 1)"
  let ?u = "the (map_of (tracks pista_alejada) 1)"
  let ?u' = "the (map_of (tracks (ejecutar (VerificarCruce 1) pista_alejada)) 1)"
  have c: "crea (CrearTrack ''adulto'' 100 240) contador_ejemplo 1"
    by (simp add: evaluar)
  have a: "\<not> crea (VerificarCruce 1) pista_izq_der 1"
    "map_of (tracks pista_izq_der) 1 = Some ?t"
    "map_of (tracks (ejecutar (VerificarCruce 1) pista_izq_der)) 1 = Some ?t'"
    "2 \<le> length (historial_posiciones ?t)" "puede_cruzar ?t"
    "cruza_izq_der ?t (linea_x pista_izq_der)"
    using tracks_pista_cruzada
    by (simp_all add: pista_cruzada_def pista_izq_der_valor cruza_izq_der_def
          linea_contador_ejemplo)
  have b: "\<not> crea (VerificarCruce 1) pista_alejada 1"
    "map_of (tracks pista_alejada) 1 = Some ?u"
    "map_of (tracks (ejecutar (VerificarCruce 1) pista_alejada)) 1 = Some ?u'"
    "2 \<le> length (historial_posiciones ?u)" "\<not> puede_cruzar ?u"
    "\<not> cruza_izq_der ?u (linea_x pista_alejada)"
    "\<not> cruza_der_izq ?u (linea_x pista_alejada)"
    "distancia_a_linea ?u (linea_x pista_alejada) > margen_cruce pista_alejada"
    by (simp_all add: tracks_pista_alejada tracks_pista_rearmada campos_pista_alejada
          cruza_izq_der_def cruza_der_izq_def distancia_a_linea_def)
  have 1: "\<exists>t'. map_of (tracks (ejecutar (CrearTrack ''adulto'' 100 240) contador_ejemplo)) 1
             = Some t' \<and> puede_cruzar t'"
    using puede_cruzar_invariante [of "CrearTrack ''adulto'' 100 240" contador_ejemplo 1] c
    by blast
  have 2: "\<not> puede_cruzar ?t'"
    using puede_cruzar_invariante [of "VerificarCruce 1" pista_izq_der 1 ?t ?t'] a by blast
  have 3: "puede_cruzar ?u'"
    using puede_cruzar_invariante [of "VerificarCruce 1" pista_alejada 1 ?u ?u'] b by blast
  show ?thesis using c 1 2 3 a(5,6) b(5,8) by blast
qed

section \<open>Facts about the matcher and the invariants\<close>

text \<open>
  On the integer squared distances, the comparisons of the source, which are made on
  their square roots, are decided exactly.
\<close>

lemma distancia_umbral:
  "distancia cx cy info < 100 \<longleftrightarrow> distancia2_ultima cx cy info < umbral_distancia\<^sup>2"
proof -
  have "sqrt (of_int (distancia2_ultima cx cy info)) < sqrt (100\<^sup>2) \<longleftrightarrow>
        (of_int (distancia2_ultima cx cy info) :: real) < 100\<^sup>2"
    by (rule real_sqrt_less_iff)
  then show ?thesis
    by (simp add: distancia_def umbral_distancia_def)
qed

lemma distancia_orden:
  "distancia cx cy a < distancia cx cy b \<longleftrightarrow> distancia2_ultima cx cy a < distancia2_ultima cx cy b"
  "distancia cx cy a \<le> distancia cx cy b \<longleftrightarrow> distancia2_ultima cx cy a \<le> distancia2_ultima cx cy b"
  by (simp_all add: distancia_def)

lemma buscar_track_Some_acc:
  "enc \<noteq> None \<Longrightarrow> buscar_track cx cy cat usados al dmin enc \<noteq> None"
  by (induction al arbitrary: dmin enc) (auto simp: Let_def)

lemma buscar_track_None:
  "buscar_track cx cy cat usados al dmin enc = None \<longleftrightarrow>
     enc = None \<and> (\<forall>p \<in> set al. cand cx cy cat usados p \<longrightarrow>
                       \<not> pasa dmin (distancia2_ultima cx cy (snd p)))"
proof (induction al arbitrary: dmin enc)
  case Nil
  then show ?case by simp
next
  case (Cons p al)
  obtain k info where p: "p = (k, info)" by (cases p)
  show ?case
    using Cons.IH [of dmin enc]
          buscar_track_Some_acc [of "Some k" cx cy cat usados al "Some (distancia2_ultima cx cy info)"]
    by (auto simp: p Let_def cand_def pasa_def distancia2_ultima_def split: option.splits)
qed

lemma buscar_track_Some:
  assumes "buscar_track cx cy cat usados al dmin enc = Some tid"
  shows "(enc = Some tid \<and>
          (\<forall>p \<in> set al. cand cx cy cat usados p \<longrightarrow>
              \<not> pasa dmin (distancia2_ultima cx cy (snd p)))) \<or>
         (\<exists>info. (tid, info) \<in> set al \<and> cand cx cy cat usados (tid, info) \<and>
              pasa dmin (distancia2_ultima cx cy info) \<and>
              (\<forall>p \<in> set al. cand cx cy cat usados p \<longrightarrow>
                  distancia2_ultima cx cy info \<le> distancia2_ultima cx cy (snd p)))"
  using assms
proof (induction al arbitrary: dmin enc)
  case Nil
  then show ?case by simp
next
  case (Cons p al)
  obtain k info where p: "p = (k, info)" by (cases p)
  let ?d = "distancia2_ultima cx cy info"
  show ?case
  proof (cases "cand cx cy cat usados p \<and> pasa dmin ?d")
    case True
    then have "buscar_track cx cy cat usados al (Some ?d) (Some k) = Some tid"
      using Cons.prems
      by (auto simp: p Let_def cand_def pasa_def distancia2_ultima_def split: option.splits)
    from Cons.IH [OF this] True show ?thesis
      by (fastforce simp: p pasa_def split: option.splits)
  next
    case False
    then have "buscar_track cx cy cat usados al dmin enc = Some tid"
      using Cons.prems
      by (auto simp: p Let_def cand_def pasa_def distancia2_ultima_def split: option.splits if_splits)
    from Cons.IH [OF this] False show ?thesis
      by (fastforce simp: p pasa_def split: option.splits)
  qed
qed


lemma update_preserva:
  assumes "distinct (map fst al)" and "\<forall>p \<in> set al. Q (snd p)" and "Q v"
  shows "distinct (map fst (AList.update k v al))"
    and "\<forall>p \<in> set (AList.update k v al). Q (snd p)"
proof -
  show "distinct (map fst (AList.update k v al))"
    using assms(1) by (rule distinct_update)
  show "\<forall>p \<in> set (AList.update k v al). Q (snd p)"
    using assms(2,3) set_update_sub [of k v al] by auto
qed

lemma set_delete_sub: "set (AList.delete k al) \<subseteq> set al"
  by (auto simp: AList.delete_eq)

lemma fold_delete_preserva:
  "distinct (map fst al) \<Longrightarrow> distinct (map fst (fold AList.delete ks al))"
  "set (fold AList.delete ks al) \<subseteq> set al"
proof (induction ks arbitrary: al)
  case Nil
  { case 1 then show ?case by simp }
  { case 2 then show ?case by simp }
next
  case (Cons k ks)
  { case 1 then show ?case using Cons.IH(1) [of "AList.delete k al"] by (simp add: distinct_delete) }
  { case 2 show ?case using Cons.IH(2) [of "AList.delete k al"] set_delete_sub [of k al] by auto }
qed

lemma map_of_en_set:
  "distinct (map fst al) \<Longrightarrow> map_of al k = Some v \<longleftrightarrow> (k, v) \<in> set al"
  by (auto dest: map_of_SomeD)


lemma bf_update:
  assumes "tracks_bien_formados s" and "historial_posiciones v \<noteq> []"
    and "tracks s' = AList.update k v (tracks s)"
  shows "tracks_bien_formados s'"
  using assms update_preserva [of "tracks s" "\<lambda>t. historial_posiciones t \<noteq> []" v k]
  by (simp add: tracks_bien_formados_def)

lemma bf_historial:
  "tracks_bien_formados s \<Longrightarrow> map_of (tracks s) k = Some t \<Longrightarrow> historial_posiciones t \<noteq> []"
  by (auto simp: tracks_bien_formados_def dest: map_of_SomeD)

lemma if_update:
  assumes "ids_frescos s" and "k < siguiente_track_id s'"
    and "siguiente_track_id s \<le> siguiente_track_id s'"
    and "tracks s' = AList.update k v (tracks s)"
  shows "ids_frescos s'"
proof -
  have "fst ` set (tracks s') = {k} \<union> fst ` set (tracks s)"
    by (simp add: assms(4) dom_update)
  then show ?thesis
    using assms(1,2,3) by (fastforce simp: ids_frescos_def)
qed

lemma if_clave:
  "ids_frescos s \<Longrightarrow> map_of (tracks s) k = Some t \<Longrightarrow> k < siguiente_track_id s"
  by (force simp: ids_frescos_def dest: map_of_SomeD)

lemma inv_modificar_track:
  assumes "\<And>t. historial_posiciones (f t) = historial_posiciones t"
  shows "tracks_bien_formados s \<Longrightarrow> tracks_bien_formados (modificar_track s tid f)"
    and "ids_frescos s \<Longrightarrow> ids_frescos (modificar_track s tid f)"
proof -
  show "tracks_bien_formados (modificar_track s tid f)" if b: "tracks_bien_formados s"
  proof (cases "map_of (tracks s) tid")
    case None
    then show ?thesis using b by (simp add: modificar_track_def)
  next
    case (Some t)
    show ?thesis
      by (rule bf_update [OF b, of "f t" _ tid])
         (use Some assms bf_historial [OF b Some] in \<open>simp_all add: modificar_track_def\<close>)
  qed
  show "ids_frescos (modificar_track s tid f)" if i: "ids_frescos s"
  proof (cases "map_of (tracks s) tid")
    case None
    then show ?thesis using i by (simp add: modificar_track_def)
  next
    case (Some t)
    show ?thesis
      by (rule if_update [OF i, of tid _ "f t"])
         (use Some if_clave [OF i Some] in \<open>simp_all add: modificar_track_def\<close>)
  qed
qed

lemma registrar_como_modificar:
  "tracks (registrar_cruce s tid d) =
     tracks (modificar_track s tid (\<lambda>t. t\<lparr>cruzado := True, direccion_cruce := Some d\<rparr>))"
  by (simp add: registrar_cruce_def modificar_track_def Let_def split: option.splits)

lemma inv_registrar_cruce:
  shows "tracks_bien_formados s \<Longrightarrow> tracks_bien_formados (registrar_cruce s tid d)"
    and "ids_frescos s \<Longrightarrow> ids_frescos (registrar_cruce s tid d)"
  using inv_modificar_track [of "\<lambda>t. t\<lparr>cruzado := True, direccion_cruce := Some d\<rparr>" s tid]
  by (simp_all add: tracks_bien_formados_def ids_frescos_def registrar_como_modificar)

lemma inv_verificar_cruce:
  shows "tracks_bien_formados s \<Longrightarrow> tracks_bien_formados (verificar_cruce s tid)"
    and "ids_frescos s \<Longrightarrow> ids_frescos (verificar_cruce s tid)"
  by (auto simp: verificar_cruce_def Let_def inv_modificar_track inv_registrar_cruce
           split: option.splits)

lemma inv_actualizar_existente:
  assumes "map_of (tracks s) tid = Some t"
  shows "tracks_bien_formados s \<Longrightarrow> tracks_bien_formados (actualizar_track s tid cat cx cy)"
    and "ids_frescos s \<Longrightarrow> ids_frescos (actualizar_track s tid cat cx cy)"
proof -
  let ?g = "historial_posiciones t @ [(cx, cy)]"
  let ?v = "t\<lparr>ultima_posicion_x := cx, frames_vistos := frames_vistos t + 1,
              historial_posiciones := (if length ?g > 50 then drop (length ?g - 50) ?g else ?g)\<rparr>"
  have tr: "tracks (actualizar_track s tid cat cx cy) = AList.update tid ?v (tracks s)"
    using assms by (simp add: actualizar_track_def Let_def)
  have h: "historial_posiciones ?v \<noteq> []" by auto
  show "tracks_bien_formados (actualizar_track s tid cat cx cy)" if "tracks_bien_formados s"
    using bf_update [OF that h tr] .
  show "ids_frescos (actualizar_track s tid cat cx cy)" if i: "ids_frescos s"
    by (rule if_update [OF i _ _ tr]) (use if_clave [OF i assms] in simp_all)
qed

lemma bf_actualizar_track:
  "tracks_bien_formados s \<Longrightarrow> tracks_bien_formados (actualizar_track s tid cat cx cy)"
proof (cases "map_of (tracks s) tid")
  case None
  assume b: "tracks_bien_formados s"
  show ?thesis
    by (rule bf_update [OF b, of "nuevo_track tid cat cx cy" _ tid])
       (use None in \<open>simp_all add: actualizar_track_def nuevo_track_def\<close>)
next
  case (Some t)
  assume "tracks_bien_formados s"
  then show ?thesis using inv_actualizar_existente(1) [OF Some] by simp
qed

lemma inv_crear_track:
  shows "tracks_bien_formados s \<Longrightarrow> tracks_bien_formados (crear_track s cat cx cy)"
    and "ids_frescos s \<Longrightarrow> ids_frescos (crear_track s cat cx cy)"
proof -
  let ?k = "siguiente_track_id s"
  have tr: "tracks (crear_track s cat cx cy) = AList.update ?k (nuevo_track ?k cat cx cy) (tracks s)"
    by (simp add: crear_track_def Let_def)
  show "tracks_bien_formados (crear_track s cat cx cy)" if b: "tracks_bien_formados s"
    by (rule bf_update [OF b _ tr]) (simp add: nuevo_track_def)
  show "ids_frescos (crear_track s cat cx cy)" if i: "ids_frescos s"
    by (rule if_update [OF i _ _ tr]) (simp_all add: crear_track_def Let_def)
qed

lemma inv_limpiar:
  shows "tracks_bien_formados s \<Longrightarrow> tracks_bien_formados (limpiar_tracks_antiguos s activos)"
    and "ids_frescos s \<Longrightarrow> ids_frescos (limpiar_tracks_antiguos s activos)"
  using fold_delete_preserva [where al = "tracks s"]
  by (auto simp: tracks_bien_formados_def ids_frescos_def limpiar_tracks_antiguos_def Let_def
           dest!: subsetD)


lemma encontrar_None:
  "encontrar_track_cercano s cx cy cat usados = None \<longleftrightarrow>
     (\<forall>p \<in> set (tracks s). \<not> cand cx cy cat usados p)"
  by (simp add: encontrar_track_cercano_def buscar_track_None pasa_def)

lemma encontrar_Some:
  assumes "encontrar_track_cercano s cx cy cat usados = Some tid"
  shows "\<exists>info. (tid, info) \<in> set (tracks s) \<and> cand cx cy cat usados (tid, info) \<and>
           (\<forall>p \<in> set (tracks s). cand cx cy cat usados p \<longrightarrow>
               distancia2_ultima cx cy info \<le> distancia2_ultima cx cy (snd p))"
  using buscar_track_Some [of cx cy cat usados "tracks s" None None tid] assms
  by (auto simp: encontrar_track_cercano_def)

lemma paso_deteccion_casos:
  "paso_deteccion det (s, usados, out) =
     (case encontrar_track_cercano s (fst (det_centro det)) (snd (det_centro det))
             (det_categoria det) usados of
        None \<Rightarrow>
          (verificar_cruce
             (crear_track s (det_categoria det) (fst (det_centro det)) (snd (det_centro det)))
             (siguiente_track_id s),
           insert (siguiente_track_id s) usados, out @ [(det, siguiente_track_id s)])
      | Some tid \<Rightarrow>
          (verificar_cruce
             (actualizar_track s tid (det_categoria det) (fst (det_centro det))
                (snd (det_centro det))) tid,
           insert tid usados, out @ [(det, tid)]))"
  by (simp add: paso_deteccion_def Let_def split: option.splits)

lemma inv_paso_deteccion:
  assumes "paso_deteccion det (s, u, out) = (s', u', out')"
    and "tracks_bien_formados s" and "ids_frescos s"
  shows "tracks_bien_formados s'" and "ids_frescos s'"
proof -
  let ?cx = "fst (det_centro det)" and ?cy = "snd (det_centro det)"
  let ?cat = "det_categoria det"
  have "tracks_bien_formados s' \<and> ids_frescos s'"
  proof (cases "encontrar_track_cercano s ?cx ?cy ?cat u")
    case None
    then have "s' = verificar_cruce (crear_track s ?cat ?cx ?cy) (siguiente_track_id s)"
      using assms(1) by (simp add: paso_deteccion_casos)
    then show ?thesis
      using assms(2,3) by (simp add: inv_verificar_cruce inv_crear_track)
  next
    case (Some tid)
    then obtain info where "(tid, info) \<in> set (tracks s)"
      using encontrar_Some by blast
    then have m: "map_of (tracks s) tid = Some info"
      using assms(2) by (simp add: tracks_bien_formados_def)
    have "s' = verificar_cruce (actualizar_track s tid ?cat ?cx ?cy) tid"
      using Some assms(1) by (simp add: paso_deteccion_casos)
    then show ?thesis
      using assms(2,3) by (simp add: inv_verificar_cruce inv_actualizar_existente [OF m])
  qed
  then show "tracks_bien_formados s'" and "ids_frescos s'" by simp_all
qed

lemma inv_fold_paso_deteccion:
  assumes "fold paso_deteccion dets (s, u, out) = (s', u', out')"
    and "tracks_bien_formados s" and "ids_frescos s"
  shows "tracks_bien_formados s' \<and> ids_frescos s'"
  using assms
proof (induction dets arbitrary: s u out)
  case Nil
  then show ?case by simp
next
  case (Cons det dets)
  obtain s1 u1 out1 where 1: "paso_deteccion det (s, u, out) = (s1, u1, out1)"
    by (cases "paso_deteccion det (s, u, out)") auto
  have "fold paso_deteccion dets (s1, u1, out1) = (s', u', out')"
    using Cons.prems(1) by (simp add: 1)
  then show ?case
    using Cons.IH inv_paso_deteccion [OF 1 Cons.prems(2,3)] by blast
qed

lemma inv_tracker_simple:
  assumes "tracks_bien_formados s" and "ids_frescos s"
  shows "tracks_bien_formados (snd (procesar_con_tracker_simple s dets))"
    and "ids_frescos (snd (procesar_con_tracker_simple s dets))"
proof -
  obtain s1 u1 out1 where 1: "fold paso_deteccion dets (s, {}, []) = (s1, u1, out1)"
    by (cases "fold paso_deteccion dets (s, {}, [])") auto
  have 2: "snd (procesar_con_tracker_simple s dets) = limpiar_tracks_antiguos s1 u1"
    by (simp add: procesar_con_tracker_simple_def 1)
  from inv_fold_paso_deteccion [OF 1 assms]
  show "tracks_bien_formados (snd (procesar_con_tracker_simple s dets))"
    and "ids_frescos (snd (procesar_con_tracker_simple s dets))"
    by (simp_all add: 2 inv_limpiar)
qed

lemma alcanzable_invariantes:
  "alcanzable s \<Longrightarrow> \<not> usar_deepsort s \<and> tracks_bien_formados s \<and> ids_frescos s"
proof (induction rule: alcanzable.induct)
  case (inicial ancho alto rel margen cats ok cb)
  then show ?case
    by (simp add: nuevo_contador_def tracks_bien_formados_def ids_frescos_def Let_def)
next
  case (frame s detecciones hay_frame tracks_ext)
  have u: "usar_deepsort (snd (procesar_con_tracker_simple s detecciones)) = usar_deepsort s"
  proof -
    obtain ops where "snd (procesar_con_tracker_simple s detecciones) = fold ejecutar ops s"
      using tracker_simple_secuencia by blast
    moreover have "usar_deepsort (ejecutar op s0) = usar_deepsort s0" for op s0
      by (cases op)
         (simp_all add: crear_track_def actualizar_track_def verificar_cruce_def
            registrar_cruce_def modificar_track_def limpiar_tracks_antiguos_def
            actualizar_posicion_linea_def actualizar_dimensiones_def reiniciar_contadores_def
            Let_def split: option.splits)
    then have "usar_deepsort (fold ejecutar ops s0) = usar_deepsort s0" for s0
      by (induction ops arbitrary: s0) simp_all
    ultimately show ?thesis by simp
  qed
  show ?case
    using frame.IH u inv_tracker_simple [of s detecciones]
    by (simp add: procesar_detecciones_def)
next
  case (linea s p)
  then show ?case
    by (simp add: actualizar_posicion_linea_def tracks_bien_formados_def ids_frescos_def Let_def)
next
  case (dimensiones s ancho alto)
  then show ?case
    by (simp add: actualizar_dimensiones_def tracks_bien_formados_def ids_frescos_def)
next
  case (reinicio s)
  then show ?case
    by (simp add: reiniciar_contadores_def tracks_bien_formados_def ids_frescos_def)
qed


lemma verificar_cruce_recien_creado:
  "verificar_cruce (crear_track s cat cx cy) (siguiente_track_id s) = crear_track s cat cx cy"
  by (simp add: verificar_cruce_def tracks_crear_track nuevo_track_def)

lemma alcanzable_tres_pistas: "alcanzable tres_pistas"
  unfolding tres_pistas_def contador_ejemplo_def
  by (rule alcanzable.frame [OF alcanzable.inicial])

lemma tres_pistas_valor:
  "tres_pistas = contador_ejemplo\<lparr>tracks :=
      [(1, nuevo_track 1 ''adulto'' 100 240), (2, nuevo_track 2 ''adulto'' 130 240),
       (3, nuevo_track 3 ''bicicleta'' 120 240)],
      siguiente_track_id := 4\<rparr>"
  by (simp add: tres_pistas_def procesar_detecciones_def procesar_con_tracker_simple_def
        paso_deteccion_def encontrar_track_cercano_def crear_track_def det_en_def
        limpiar_tracks_antiguos_def distancia2_def umbral_distancia_def evaluar)

lemma encontrar_tres_pistas:
  "encontrar_track_cercano tres_pistas 120 240 ''adulto'' {} = Some 2"
  "encontrar_track_cercano tres_pistas 120 240 ''adulto'' {2} = Some 1"
  "encontrar_track_cercano tres_pistas 200 240 ''adulto'' {2} = None"
  "encontrar_track_cercano tres_pistas 120 240 ''nino'' {} = None"
  by (simp_all add: tres_pistas_valor encontrar_track_cercano_def nuevo_track_def
        distancia2_def umbral_distancia_def)

section \<open>C5: the built-in matcher\<close>

text \<open>
  Claim C5. Let the track dictionary be well formed and its identifiers below the next
  identifier (every state reached with the built-in matcher is, lemma
  \<open>alcanzable_invariantes\<close>), and let \<open>usados\<close> be the tracks claimed by the earlier
  detections of the frame. A track is free for a detection when it is stored, not yet
  claimed and of the detection's category. If the search returns a track, it is free,
  the Euclidean distance from its last recorded centroid to the detection's centroid is
  strictly below 100 and minimal among the free tracks, and the detection is assigned to
  it (update, crossing check, claimed, output). If the search returns nothing, every
  free track is at distance 100 or more (in particular when no track of the category is
  stored), and a new track is created under the next identifier, which is larger than
  every identifier in use and is then incremented by one.
\<close>

theorem matcher_asocia_mas_cercano:
  fixes s :: BidirectionalCounter and det :: Deteccion and usados :: "int set"
    and out :: "(Deteccion \<times> int) list"
  defines "cx \<equiv> fst (det_centro det)" and "cy \<equiv> snd (det_centro det)"
    and "cat \<equiv> det_categoria det"
  defines "libre \<equiv> \<lambda>k info. map_of (tracks s) k = Some info \<and> k \<notin> usados \<and> categoria info = cat"
  assumes bf: "tracks_bien_formados s" and fr: "ids_frescos s"
  shows
   "case encontrar_track_cercano s cx cy cat usados of
      Some tid \<Rightarrow>
        (\<exists>info. libre tid info \<and> distancia cx cy info < 100 \<and>
                (\<forall>k i. libre k i \<longrightarrow> distancia cx cy info \<le> distancia cx cy i)) \<and>
        paso_deteccion det (s, usados, out) =
          (verificar_cruce (actualizar_track s tid cat cx cy) tid,
           insert tid usados, out @ [(det, tid)])
    | None \<Rightarrow>
        (\<forall>k i. libre k i \<longrightarrow> 100 \<le> distancia cx cy i) \<and>
        map_of (tracks s) (siguiente_track_id s) = None \<and>
        (\<forall>k i. map_of (tracks s) k = Some i \<longrightarrow> k < siguiente_track_id s) \<and>
        paso_deteccion det (s, usados, out) =
          (crear_track s cat cx cy,
           insert (siguiente_track_id s) usados, out @ [(det, siguiente_track_id s)]) \<and>
        map_of (tracks (crear_track s cat cx cy)) (siguiente_track_id s) =
          Some (nuevo_track (siguiente_track_id s) cat cx cy) \<and>
        siguiente_track_id (crear_track s cat cx cy) = siguiente_track_id s + 1"
proof (cases "encontrar_track_cercano s cx cy cat usados")
  case None
  have d: "distinct (map fst (tracks s))" using bf by (simp add: tracks_bien_formados_def)
  have 1: "100 \<le> distancia cx cy i" if "libre k i" for k i
  proof -
    have m: "(k, i) \<in> set (tracks s)" using that d by (simp add: libre_def)
    then have "\<not> cand cx cy cat usados (k, i)" using None by (auto simp: encontrar_None)
    moreover have "historial_posiciones i \<noteq> []"
      using bf m by (auto simp: tracks_bien_formados_def)
    ultimately have "\<not> distancia2_ultima cx cy i < umbral_distancia\<^sup>2"
      using that by (simp add: cand_def libre_def)
    then show ?thesis using distancia_umbral [of cx cy i] by simp
  qed
  have 2: "k < siguiente_track_id s" if "map_of (tracks s) k = Some i" for k i
    using if_clave [OF fr that] .
  have 3: "map_of (tracks s) (siguiente_track_id s) = None"
  proof (cases "map_of (tracks s) (siguiente_track_id s)")
    case (Some i)
    then show ?thesis using 2 by blast
  qed simp
  have 4: "paso_deteccion det (s, usados, out) =
          (crear_track s cat cx cy,
           insert (siguiente_track_id s) usados, out @ [(det, siguiente_track_id s)])"
    using None
    by (simp add: paso_deteccion_casos cx_def cy_def cat_def verificar_cruce_recien_creado)
  have 5: "siguiente_track_id (crear_track s cat cx cy) = siguiente_track_id s + 1"
    by (simp add: crear_track_def Let_def)
  show ?thesis using None 1 2 3 4 5 by (simp add: tracks_crear_track)
next
  case (Some tid)
  have d: "distinct (map fst (tracks s))" using bf by (simp add: tracks_bien_formados_def)
  from encontrar_Some [OF Some] obtain info where
    i: "(tid, info) \<in> set (tracks s)" "cand cx cy cat usados (tid, info)"
       "\<forall>p \<in> set (tracks s). cand cx cy cat usados p \<longrightarrow>
           distancia2_ultima cx cy info \<le> distancia2_ultima cx cy (snd p)"
    by blast
  have l: "libre tid info" using i(1,2) d by (simp add: libre_def cand_def)
  have u: "distancia cx cy info < 100"
    using i(2) by (simp add: distancia_umbral cand_def)
  have m: "distancia cx cy info \<le> distancia cx cy j" if "libre k j" for k j
  proof (cases "distancia2_ultima cx cy j < umbral_distancia\<^sup>2")
    case True
    have kj: "(k, j) \<in> set (tracks s)" using that d by (simp add: libre_def)
    moreover have "historial_posiciones j \<noteq> []"
      using bf kj by (auto simp: tracks_bien_formados_def)
    ultimately have "cand cx cy cat usados (k, j)"
      using that True by (simp add: cand_def libre_def)
    then show ?thesis using i(3) kj by (auto simp: distancia_orden)
  next
    case False
    then have "100 \<le> distancia cx cy j" using distancia_umbral [of cx cy j] by simp
    then show ?thesis using u by simp
  qed
  have p: "paso_deteccion det (s, usados, out) =
          (verificar_cruce (actualizar_track s tid cat cx cy) tid,
           insert tid usados, out @ [(det, tid)])"
    using Some by (simp add: paso_deteccion_casos cx_def cy_def cat_def)
  show ?thesis using Some l u m p by auto
qed

theorem matcher_asocia_mas_cercano_witness:
  "tracks_bien_formados tres_pistas \<and> ids_frescos tres_pistas \<and>
   encontrar_track_cercano tres_pistas 120 240 ''adulto'' {} = Some 2 \<and>
   paso_deteccion (det_en ''adulto'' 120 240) (tres_pistas, {}, []) =
     (verificar_cruce (actualizar_track tres_pistas 2 ''adulto'' 120 240) 2, {2},
      [(det_en ''adulto'' 120 240, 2)]) \<and>
   encontrar_track_cercano tres_pistas 200 240 ''adulto'' {2} = None \<and>
   siguiente_track_id tres_pistas = 4 \<and>
   map_of (tracks tres_pistas) 4 = None \<and>
   paso_deteccion (det_en ''adulto'' 200 240) (tres_pistas, {2}, []) =
     (crear_track tres_pistas ''adulto'' 200 240, {4, 2}, [(det_en ''adulto'' 200 240, 4)])"
proof -
  have i: "tracks_bien_formados tres_pistas" "ids_frescos tres_pistas"
    using alcanzable_invariantes [OF alcanzable_tres_pistas] by simp_all
  have n: "siguiente_track_id tres_pistas = 4" by (simp add: tres_pistas_valor)
  have c: "fst (det_centro (det_en ''adulto'' 120 240)) = 120"
    "snd (det_centro (det_en ''adulto'' 120 240)) = 240"
    "det_categoria (det_en ''adulto'' 120 240) = ''adulto''"
    "fst (det_centro (det_en ''adulto'' 200 240)) = 200"
    "snd (det_centro (det_en ''adulto'' 200 240)) = 240"
    "det_categoria (det_en ''adulto'' 200 240) = ''adulto''"
    by (simp_all add: det_en_def)
  have a: "paso_deteccion (det_en ''adulto'' 120 240) (tres_pistas, {}, []) =
     (verificar_cruce (actualizar_track tres_pistas 2 ''adulto'' 120 240) 2, {2},
      [(det_en ''adulto'' 120 240, 2)])"
    using matcher_asocia_mas_cercano
            [where s = tres_pistas and det = "det_en ''adulto'' 120 240" and usados = "{}"
               and out = "[]", OF i]
    by (simp add: c encontrar_tres_pistas)
  have b: "map_of (tracks tres_pistas) 4 = None \<and>
     paso_deteccion (det_en ''adulto'' 200 240) (tres_pistas, {2}, []) =
     (crear_track tres_pistas ''adulto'' 200 240, {4, 2}, [(det_en ''adulto'' 200 240, 4)])"
    using matcher_asocia_mas_cercano
            [where s = tres_pistas and det = "det_en ''adulto'' 200 240" and usados = "{2}"
               and out = "[]", OF i]
    by (simp add: c encontrar_tres_pistas n)
  show ?thesis using i n a b encontrar_tres_pistas by simp
qed

section \<open>Facts about one frame of the built-in matcher\<close>

lemma bf_paso_deteccion:
  assumes "paso_deteccion det (s, u, out) = (s', u', out')" and "tracks_bien_formados s"
  shows "tracks_bien_formados s'"
proof -
  let ?cx = "fst (det_centro det)" and ?cy = "snd (det_centro det)"
  let ?cat = "det_categoria det"
  show ?thesis
  proof (cases "encontrar_track_cercano s ?cx ?cy ?cat u")
    case None
    then have "s' = verificar_cruce (crear_track s ?cat ?cx ?cy) (siguiente_track_id s)"
      using assms(1) by (simp add: paso_deteccion_casos)
    then show ?thesis
      using assms(2) by (simp add: inv_verificar_cruce inv_crear_track)
  next
    case (Some tid)
    have "s' = verificar_cruce (actualizar_track s tid ?cat ?cx ?cy) tid"
      using Some assms(1) by (simp add: paso_deteccion_casos)
    then show ?thesis
      using assms(2) by (simp add: inv_verificar_cruce bf_actualizar_track)
  qed
qed

lemma tracks_verificar_presente:
  "map_of (tracks s) k \<noteq> None \<Longrightarrow> map_of (tracks (verificar_cruce s tid)) k \<noteq> None"
  using puede_cruzar_verificar [of s tid] tracks_verificar_otro [of k tid s]
  by (cases "k = tid") auto

text \<open>One detection touches only the track it is assigned to, and removes none.\<close>

lemma paso_deteccion_toca:
  assumes "paso_deteccion det (s, u, out) = (s', u', out')"
  shows "\<exists>tid. u' = insert tid u \<and> out' = out @ [(det, tid)] \<and>
           map_of (tracks s') tid \<noteq> None \<and>
           (\<forall>k. k \<noteq> tid \<longrightarrow> map_of (tracks s') k = map_of (tracks s) k)"
proof (cases "encontrar_track_cercano s (fst (det_centro det)) (snd (det_centro det))
                (det_categoria det) u")
  case None
  then show ?thesis
    using assms
    by (auto simp: paso_deteccion_casos verificar_cruce_recien_creado tracks_crear_track)
next
  case (Some tid)
  have "map_of (tracks (actualizar_track s tid (det_categoria det) (fst (det_centro det))
                  (snd (det_centro det)))) tid \<noteq> None"
    by (simp add: tracks_actualizar_track)
  then show ?thesis
    using assms Some tracks_verificar_presente
    by (auto simp: paso_deteccion_casos tracks_verificar_otro tracks_actualizar_otro)
qed

lemma fold_paso_deteccion_toca:
  assumes "fold paso_deteccion dets (s, u, out) = (s', u', out')"
  shows "\<exists>nuevos. out' = out @ nuevos \<and> map fst nuevos = dets \<and>
           u' = u \<union> snd ` set nuevos \<and>
           (\<forall>k \<in> snd ` set nuevos. map_of (tracks s') k \<noteq> None) \<and>
           (\<forall>k. k \<notin> snd ` set nuevos \<longrightarrow> map_of (tracks s') k = map_of (tracks s) k)"
  using assms
proof (induction dets arbitrary: s u out)
  case Nil
  then show ?case by simp
next
  case (Cons det dets)
  obtain s1 u1 out1 where 1: "paso_deteccion det (s, u, out) = (s1, u1, out1)"
    by (cases "paso_deteccion det (s, u, out)") auto
  from paso_deteccion_toca [OF 1] obtain tid where
    t: "u1 = insert tid u" "out1 = out @ [(det, tid)]" "map_of (tracks s1) tid \<noteq> None"
       "\<forall>k. k \<noteq> tid \<longrightarrow> map_of (tracks s1) k = map_of (tracks s) k"
    by blast
  have "fold paso_deteccion dets (s1, u1, out1) = (s', u', out')"
    using Cons.prems by (simp add: 1)
  from Cons.IH [OF this] obtain nuevos where
    n: "out' = out1 @ nuevos" "map fst nuevos = dets" "u' = u1 \<union> snd ` set nuevos"
       "\<forall>k \<in> snd ` set nuevos. map_of (tracks s') k \<noteq> None"
       "\<forall>k. k \<notin> snd ` set nuevos \<longrightarrow> map_of (tracks s') k = map_of (tracks s1) k"
    by blast
  let ?n = "(det, tid) # nuevos"
  have a: "out' = out @ ?n" "map fst ?n = det # dets" "u' = u \<union> snd ` set ?n"
    using t(1,2) n(1,2,3) by simp_all
  have b: "\<forall>k \<in> snd ` set ?n. map_of (tracks s') k \<noteq> None"
  proof
    fix k assume "k \<in> snd ` set ?n"
    then consider "k \<in> snd ` set nuevos" | "k = tid" "k \<notin> snd ` set nuevos"
      by (cases "k \<in> snd ` set nuevos") simp_all
    then show "map_of (tracks s') k \<noteq> None"
    proof cases
      case 1
      then show ?thesis using n(4) by blast
    next
      case 2
      then show ?thesis using n(5) t(3) by simp
    qed
  qed
  have c: "\<forall>k. k \<notin> snd ` set ?n \<longrightarrow> map_of (tracks s') k = map_of (tracks s) k"
    using t(4) n(5) by simp
  show ?case
    by (rule exI [where x = ?n]) (intro conjI a b c)
qed

lemma bf_fold_paso_deteccion:
  assumes "fold paso_deteccion dets (s, u, out) = (s', u', out')"
    and "tracks_bien_formados s"
  shows "tracks_bien_formados s'"
  using assms
proof (induction dets arbitrary: s u out)
  case Nil
  then show ?case by simp
next
  case (Cons det dets)
  obtain s1 u1 out1 where 1: "paso_deteccion det (s, u, out) = (s1, u1, out1)"
    by (cases "paso_deteccion det (s, u, out)") auto
  have "fold paso_deteccion dets (s1, u1, out1) = (s', u', out')"
    using Cons.prems(1) by (simp add: 1)
  then show ?case
    using Cons.IH bf_paso_deteccion [OF 1 Cons.prems(2)] by blast
qed

lemma tracks_limpiar_distinct:
  assumes "distinct (map fst (tracks s))"
  shows "map_of (tracks (limpiar_tracks_antiguos s activos)) k =
     (case map_of (tracks s) k of
        None \<Rightarrow> None
      | Some t \<Rightarrow> if k \<notin> activos \<and> cruzado t then None else Some t)"
proof (cases "map_of (tracks s) k")
  case None
  then show ?thesis by (simp add: tracks_limpiar)
next
  case (Some t)
  have 1: "(k, t) \<in> set (tracks s)" using Some by (rule map_of_SomeD)
  have 2: "snd p = t" if "p \<in> set (tracks s)" and "fst p = k" for p
  proof -
    have "(k, snd p) \<in> set (tracks s)" using that by (metis prod.collapse)
    then have "map_of (tracks s) k = Some (snd p)" using assms by simp
    then show ?thesis using Some by simp
  qed
  have "k \<in> fst ` {p \<in> set (tracks s). fst p \<notin> activos \<and> cruzado (snd p)} \<longleftrightarrow>
        k \<notin> activos \<and> cruzado t"
  proof
    assume "k \<in> fst ` {p \<in> set (tracks s). fst p \<notin> activos \<and> cruzado (snd p)}"
    then obtain p where "p \<in> set (tracks s)" "fst p = k" "fst p \<notin> activos" "cruzado (snd p)"
      by auto
    then show "k \<notin> activos \<and> cruzado t" using 2 by auto
  next
    assume "k \<notin> activos \<and> cruzado t"
    then have "(k, t) \<in> {p \<in> set (tracks s). fst p \<notin> activos \<and> cruzado (snd p)}"
      using 1 by simp
    then show "k \<in> fst ` {p \<in> set (tracks s). fst p \<notin> activos \<and> cruzado (snd p)}"
      by (rule image_eqI [rotated]) simp
  qed
  then show ?thesis using Some by (simp add: tracks_limpiar)
qed

lemmas evaluar3 =
  procesar_detecciones_def procesar_con_tracker_simple_def paso_deteccion_def
  encontrar_track_cercano_def crear_track_def det_en_def limpiar_tracks_antiguos_def
  distancia2_def umbral_distancia_def

lemma tras_cruce_valor:
  "tras_cruce = contador_ejemplo\<lparr>
      llamadas_callback := [(''adulto'', IZQUIERDA_A_DERECHA, 2)],
      contadores :=
        [(''adulto'', \<lparr>izq_der = 1, der_izq = 0\<rparr>),
         (''nino'', \<lparr>izq_der = 0, der_izq = 0\<rparr>),
         (''bicicleta'', \<lparr>izq_der = 0, der_izq = 0\<rparr>),
         (''silla_ruedas'', \<lparr>izq_der = 0, der_izq = 0\<rparr>),
         (''movilidad_reducida'', \<lparr>izq_der = 0, der_izq = 0\<rparr>)],
      tracks :=
        [(1, nuevo_track 1 ''adulto'' 100 240),
         (2, \<lparr>track_id = 2, categoria = ''adulto'', ultima_posicion_x = 160,
              posicion_inicial_x = 130, cruzado = True,
              direccion_cruce = Some IZQUIERDA_A_DERECHA, frames_vistos = 2,
              historial_posiciones = [(130, 240), (160, 240)],
              ultimo_lado = ''derecha'', puede_cruzar = False\<rparr>),
         (3, nuevo_track 3 ''bicicleta'' 120 240)],
      siguiente_track_id := 4\<rparr>"
  by (simp add: tras_cruce_def tres_pistas_valor evaluar3 evaluar)

lemma frame_bicicleta:
  "procesar_detecciones tras_cruce [det_en ''bicicleta'' 125 240] False [] =
     ([(det_en ''bicicleta'' 125 240, 3)], tras_desalojo)"
proof -
  have "fst (procesar_detecciones tras_cruce [det_en ''bicicleta'' 125 240] False []) =
          [(det_en ''bicicleta'' 125 240, 3)]"
    by (simp add: tras_cruce_valor evaluar3 evaluar)
  then show ?thesis
    by (simp add: tras_desalojo_def prod_eq_iff)
qed

lemma alcanzable_tras_cruce: "alcanzable tras_cruce"
  unfolding tras_cruce_def by (rule alcanzable.frame [OF alcanzable_tres_pistas])

section \<open>C6: eviction\<close>

text \<open>
  Claim C6 as stated (for every frame update) fails on a frame without detections:
  \<^verbatim>\<open>procesar_detecciones\<close> returns before the cleaning step, so the track that
  has crossed and is not matched stays in the dictionary. It also stays when the frame
  is processed through the external tracker, whose path has no cleaning step.
\<close>

theorem frame_sin_desalojo:
  "map_of (tracks pista_cruzada) 1 \<noteq> None \<and>
   cruzado (the (map_of (tracks pista_cruzada) 1)) \<and>
   fst (procesar_detecciones pista_cruzada [] False []) = [] \<and>
   map_of (tracks (snd (procesar_detecciones pista_cruzada [] False []))) 1 =
     map_of (tracks pista_cruzada) 1 \<and>
   map_of (tracks dos_frames_deepsort) 1 \<noteq> None \<and>
   cruzado (the (map_of (tracks dos_frames_deepsort) 1)) \<and>
   fst (procesar_detecciones dos_frames_deepsort [det_adulto_100] True []) = [] \<and>
   map_of (tracks (snd (procesar_detecciones dos_frames_deepsort [det_adulto_100] True []))) 1 =
     map_of (tracks dos_frames_deepsort) 1"
  by (simp add: tracks_pista_cruzada evaluar evaluar2)

text \<open>
  Claim C6, amended. For every frame with at least one detection that is processed by
  the built-in matcher, on a well-formed track dictionary: the result pairs every
  detection with a track identifier, every track matched in the frame is kept, and every
  track that is not matched is removed from the dictionary when its \<open>cruzado\<close> flag is
  set and is kept unchanged when it is not.
\<close>

theorem desalojo_por_frame:
  assumes "tracks_bien_formados s" and "detecciones \<noteq> []"
    and "\<not> (usar_deepsort s \<and> hay_frame)"
    and "procesar_detecciones s detecciones hay_frame tracks_ext = (out, s')"
  shows "map fst out = detecciones \<and>
         (\<forall>k \<in> snd ` set out. map_of (tracks s') k \<noteq> None) \<and>
         (\<forall>k t. map_of (tracks s) k = Some t \<and> k \<notin> snd ` set out \<longrightarrow>
                map_of (tracks s') k = (if cruzado t then None else Some t))"
proof -
  obtain s1 u1 out1 where 1: "fold paso_deteccion detecciones (s, {}, []) = (s1, u1, out1)"
    by (cases "fold paso_deteccion detecciones (s, {}, [])") auto
  have p: "out = out1" "s' = limpiar_tracks_antiguos s1 u1"
    using assms(2,3,4) by (auto simp: procesar_detecciones_def procesar_con_tracker_simple_def 1)
  from fold_paso_deteccion_toca [OF 1] have
    n: "map fst out1 = detecciones" "u1 = snd ` set out1"
       "\<forall>k \<in> snd ` set out1. map_of (tracks s1) k \<noteq> None"
       "\<forall>k. k \<notin> snd ` set out1 \<longrightarrow> map_of (tracks s1) k = map_of (tracks s) k"
    by auto
  have d: "distinct (map fst (tracks s1))"
    using bf_fold_paso_deteccion [OF 1 assms(1)] by (simp add: tracks_bien_formados_def)
  note l = tracks_limpiar_distinct [OF d, of u1]
  have a: "\<forall>k \<in> snd ` set out. map_of (tracks s') k \<noteq> None"
  proof
    fix k assume k: "k \<in> snd ` set out"
    then obtain t where "map_of (tracks s1) k = Some t" using n(3) p(1) by auto
    moreover have "k \<in> u1" using k n(2) p(1) by simp
    ultimately show "map_of (tracks s') k \<noteq> None" by (simp add: p(2) l)
  qed
  have b: "map_of (tracks s') k = (if cruzado t then None else Some t)"
    if "map_of (tracks s) k = Some t \<and> k \<notin> snd ` set out" for k t
  proof -
    have "k \<notin> u1" using that n(2) p(1) by simp
    moreover have "map_of (tracks s1) k = Some t" using that n(4) p(1) by simp
    ultimately show ?thesis by (simp add: p(2) l)
  qed
  show ?thesis using n(1) a b by (simp add: p(1))
qed

theorem desalojo_por_frame_witness:
  "tracks_bien_formados tras_cruce \<and>
   procesar_detecciones tras_cruce [det_en ''bicicleta'' 125 240] False [] =
     ([(det_en ''bicicleta'' 125 240, 3)], tras_desalojo) \<and>
   cruzado (the (map_of (tracks tras_cruce) 2)) \<and>
   map_of (tracks tras_desalojo) 2 = None \<and>
   \<not> cruzado (the (map_of (tracks tras_cruce) 1)) \<and>
   map_of (tracks tras_desalojo) 1 = map_of (tracks tras_cruce) 1 \<and>
   map_of (tracks tras_desalojo) 1 \<noteq> None \<and>
   map_of (tracks tras_desalojo) 3 \<noteq> None"
proof -
  have b: "tracks_bien_formados tras_cruce"
    using alcanzable_invariantes [OF alcanzable_tras_cruce] by simp
  have u: "\<not> (usar_deepsort tras_cruce \<and> False)" by simp
  have n: "[det_en ''bicicleta'' 125 240] \<noteq> []" by simp
  note d = desalojo_por_frame [OF b n u frame_bicicleta]
  have t: "map_of (tracks tras_cruce) 2 = Some (the (map_of (tracks tras_cruce) 2))"
    "cruzado (the (map_of (tracks tras_cruce) 2))"
    "map_of (tracks tras_cruce) 1 = Some (the (map_of (tracks tras_cruce) 1))"
    "\<not> cruzado (the (map_of (tracks tras_cruce) 1))"
    by (simp_all add: tras_cruce_valor nuevo_track_def)
  have 2: "map_of (tracks tras_desalojo) 2 = None"
    using d t(1,2) by auto
  have 1: "map_of (tracks tras_desalojo) 1 = map_of (tracks tras_cruce) 1"
    using d t(3,4) by auto
  have 3: "map_of (tracks tras_desalojo) 3 \<noteq> None"
    using d by simp
  have 4: "map_of (tracks tras_desalojo) 1 \<noteq> None"
    using 1 t(3) by (metis option.distinct(1))
  show ?thesis using b frame_bicicleta t(2,4) 1 2 3 4 by blast
qed

section \<open>The pass of C2 through the frames of the built-in matcher\<close>

lemma claves_modificar_track:
  "map fst (tracks (modificar_track s tid f)) = map fst (tracks s)"
proof (cases "map_of (tracks s) tid")
  case None
  then show ?thesis by (simp add: modificar_track_def)
next
  case (Some t)
  then have "(tid, t) \<in> set (tracks s)" by (rule map_of_SomeD)
  then have "tid \<in> fst ` set (tracks s)" by (rule image_eqI [rotated]) simp
  then show ?thesis using Some by (simp add: modificar_track_def update_keys)
qed

lemma claves_verificar_cruce:
  "map fst (tracks (verificar_cruce s tid)) = map fst (tracks s)"
  using claves_modificar_track
  by (auto simp: verificar_cruce_def Let_def registrar_como_modificar split: option.splits)

lemma claves_actualizar_existente:
  assumes "map_of (tracks s) tid = Some t"
  shows "map fst (tracks (actualizar_track s tid cat cx cy)) = map fst (tracks s)"
proof -
  have "(tid, t) \<in> set (tracks s)" using assms by (rule map_of_SomeD)
  then have "tid \<in> fst ` set (tracks s)" by (rule image_eqI [rotated]) simp
  then show ?thesis using assms by (simp add: actualizar_track_def Let_def update_keys)
qed

lemma usar_deepsort_paso_track [simp]:
  "usar_deepsort (paso_track s tid cat p) = usar_deepsort s"
  by (simp add: paso_track_def verificar_cruce_def actualizar_track_def registrar_cruce_def
        modificar_track_def Let_def split: option.splits)

lemma una_clave:
  "map fst al = [k] \<Longrightarrow> map_of al k = Some t \<Longrightarrow> al = [(k, t)]"
  by (cases al) auto

lemma limpiar_unico_usado:
  "map fst (tracks s) = [k] \<Longrightarrow> limpiar_tracks_antiguos s {k} = s"
  by (cases "tracks s") (auto simp: limpiar_tracks_antiguos_def)

lemma frame_una_deteccion:
  assumes "tracks s = [(k, t)]" and "categoria t = det_categoria det"
    and "historial_posiciones t \<noteq> []"
    and "distancia2_ultima (fst (det_centro det)) (snd (det_centro det)) t < umbral_distancia\<^sup>2"
    and "\<not> usar_deepsort s"
  shows "procesar_detecciones s [det] hay_frame ext =
           ([(det, k)], paso_track s k (det_categoria det) (det_centro det))"
proof -
  let ?cx = "fst (det_centro det)" and ?cy = "snd (det_centro det)"
  let ?s1 = "paso_track s k (det_categoria det) (det_centro det)"
  have e: "encontrar_track_cercano s ?cx ?cy (det_categoria det) {} = Some k"
    using assms(1-4) by (simp add: encontrar_track_cercano_def distancia2_ultima_def)
  have m: "map_of (tracks s) k = Some t" using assms(1) by simp
  have "map fst (tracks ?s1) = [k]"
    using assms(1) by (simp add: paso_track_def claves_verificar_cruce
          claves_actualizar_existente [OF m])
  then have l: "limpiar_tracks_antiguos ?s1 {k} = ?s1" by (rule limpiar_unico_usado)
  show ?thesis
    using assms(5) e l
    by (simp add: procesar_detecciones_def procesar_con_tracker_simple_def
          paso_deteccion_casos paso_track_def)
qed

lemma frame_primera_deteccion:
  assumes "tracks s = []" and "\<not> usar_deepsort s"
  shows "procesar_detecciones s [det] hay_frame ext =
           ([(det, siguiente_track_id s)],
            crear_track s (det_categoria det) (fst (det_centro det)) (snd (det_centro det)))"
proof -
  let ?s1 = "crear_track s (det_categoria det) (fst (det_centro det)) (snd (det_centro det))"
  have e: "encontrar_track_cercano s (fst (det_centro det)) (snd (det_centro det))
             (det_categoria det) {} = None"
    using assms(1) by (simp add: encontrar_track_cercano_def)
  have "map fst (tracks ?s1) = [siguiente_track_id s]"
    using assms(1) by (simp add: crear_track_def Let_def)
  then have l: "limpiar_tracks_antiguos ?s1 {siguiente_track_id s} = ?s1"
    by (rule limpiar_unico_usado)
  show ?thesis
    using assms(2) e l
    by (simp add: procesar_detecciones_def procesar_con_tracker_simple_def
          paso_deteccion_casos verificar_cruce_recien_creado)
qed

lemma frames_Cons:
  "frames_de_una_deteccion s (d # dets) =
     frames_de_una_deteccion (snd (procesar_detecciones s [d] False [])) dets"
  by (simp add: frames_de_una_deteccion_def)

text \<open>Once the track exists, the frames do to it what \<open>seguir_track\<close> does.\<close>

lemma frames_es_seguir_track:
  assumes "tracks s = [(k, t)]" and "categoria t = cat" and "historial_posiciones t \<noteq> []"
    and "\<not> usar_deepsort s" and "\<forall>d \<in> set dets. det_categoria d = cat"
    and "pasos_cortos (last (historial_posiciones t) # map det_centro dets)"
  shows "frames_de_una_deteccion s dets = seguir_track s k cat (map det_centro dets)"
  using assms
proof (induction dets arbitrary: s t)
  case Nil
  then show ?case by (simp add: frames_de_una_deteccion_def seguir_track_def)
next
  case (Cons d dets)
  let ?s1 = "paso_track s k cat (det_centro d)"
  have c: "det_categoria d = cat" using Cons.prems(5) by simp
  have m: "map_of (tracks s) k = Some t" using Cons.prems(1) by simp
  have dist: "distancia2_ultima (fst (det_centro d)) (snd (det_centro d)) t < umbral_distancia\<^sup>2"
    using Cons.prems(6) by (simp add: distancia2_ultima_def)
  have f: "procesar_detecciones s [d] False [] = ([(d, k)], ?s1)"
    using frame_una_deteccion [OF Cons.prems(1) _ Cons.prems(3) dist Cons.prems(4)]
      Cons.prems(2) c by simp
  from paso_track_resumen [OF m Cons.prems(3), of cat "fst (det_centro d)" "snd (det_centro d)"]
  obtain t' where t': "map_of (tracks ?s1) k = Some t'" "categoria t' = categoria t"
      "historial_posiciones t' \<noteq> []" "last (historial_posiciones t') = det_centro d"
    by auto
  have "map fst (tracks ?s1) = [k]"
    using Cons.prems(1)
    by (simp add: paso_track_def claves_verificar_cruce claves_actualizar_existente [OF m])
  then have tr: "tracks ?s1 = [(k, t')]" using t'(1) by (rule una_clave)
  have "frames_de_una_deteccion ?s1 dets = seguir_track ?s1 k cat (map det_centro dets)"
  proof (rule Cons.IH [OF tr _ t'(3)])
    show "categoria t' = cat" using t'(2) Cons.prems(2) by simp
    show "\<not> usar_deepsort ?s1" using Cons.prems(4) by simp
    show "\<forall>d \<in> set dets. det_categoria d = cat" using Cons.prems(5) by simp
    show "pasos_cortos (last (historial_posiciones t') # map det_centro dets)"
      using Cons.prems(6) by (simp add: t'(4))
  qed
  then show ?case by (simp add: frames_Cons f seguir_track_Cons)
qed


lemma campos_crear_track [simp]:
  "contadores (crear_track s cat cx cy) = contadores s"
  "linea_x (crear_track s cat cx cy) = linea_x s"
  "usar_deepsort (crear_track s cat cx cy) = usar_deepsort s"
  by (simp_all add: crear_track_def Let_def)

text \<open>
  The pass of claim C2 as the built-in matcher sees it, from a counter without tracks:
  the first frame creates the track, every later frame matches it, and the crossing is
  counted once.
\<close>

lemma pasada_por_frames:
  assumes "tracks s = []" and "\<not> usar_deepsort s" and "dets \<noteq> []"
    and "\<forall>d \<in> set dets. det_categoria d = cat"
    and "sorted (map fst (map det_centro dets))"
    and "fst (det_centro (hd dets)) < linea_x s"
    and "linea_x s < fst (det_centro (last dets))"
    and "pasos_cortos (map det_centro dets)"
    and "celda s cat IZQUIERDA_A_DERECHA = Some n"
  shows "celda (frames_de_una_deteccion s dets) c dir =
           (if c = cat \<and> dir = IZQUIERDA_A_DERECHA then Some (n + 1) else celda s c dir)"
proof -
  obtain d rest where dets: "dets = d # rest" using assms(3) by (cases dets) auto
  let ?k = "siguiente_track_id s"
  let ?cx = "fst (det_centro d)" and ?cy = "snd (det_centro d)"
  let ?s1 = "crear_track s cat ?cx ?cy"
  let ?t = "nuevo_track ?k cat ?cx ?cy"
  have c: "det_categoria d = cat" using assms(4) by (simp add: dets)
  have f: "procesar_detecciones s [d] False [] = ([(d, ?k)], ?s1)"
    using frame_primera_deteccion [OF assms(1,2), of d False "[]"] c by simp
  have tr: "tracks ?s1 = [(?k, ?t)]"
    using assms(1) by (simp add: crear_track_def Let_def)
  have h: "historial_posiciones ?t \<noteq> []" "last (historial_posiciones ?t) = det_centro d"
    "categoria ?t = cat" "puede_cruzar ?t"
    by (simp_all add: nuevo_track_def)
  have ne: "rest \<noteq> []" using assms(6,7) by (auto simp: dets)
  have "frames_de_una_deteccion ?s1 rest = seguir_track ?s1 ?k cat (map det_centro rest)"
  proof (rule frames_es_seguir_track [OF tr h(3) h(1)])
    show "\<not> usar_deepsort ?s1" using assms(2) by simp
    show "\<forall>d \<in> set rest. det_categoria d = cat" using assms(4) by (simp add: dets)
    show "pasos_cortos (last (historial_posiciones ?t) # map det_centro rest)"
      using assms(8) by (simp add: dets h(2))
  qed
  moreover have "contadores (seguir_track ?s1 ?k cat (map det_centro rest)) =
          incrementar (contadores ?s1) (categoria ?t) IZQUIERDA_A_DERECHA"
  proof (rule seguir_track_izquierda [OF _ h(1) h(4)])
    show "map_of (tracks ?s1) ?k = Some ?t" by (simp add: tr)
    show "fst (last (historial_posiciones ?t)) < linea_x ?s1"
      using assms(6) by (simp add: dets h(2))
    show "sorted (map fst (map det_centro rest))" using assms(5) by (simp add: dets)
    show "map det_centro rest \<noteq> []" using ne by simp
    show "linea_x ?s1 \<le> fst (last (map det_centro rest))"
      using assms(7) ne by (simp add: dets last_map)
  qed
  ultimately have "contadores (frames_de_una_deteccion s dets) =
          incrementar (contadores s) cat IZQUIERDA_A_DERECHA"
    by (simp add: dets frames_Cons f h(3))
  from celda_incrementar [OF this, of c dir] assms(9) show ?thesis
    by (cases dir) auto
qed

end
